theory Spec2Isabelle
  imports Main "HOL-Library.Sublist"
begin

section \<open>Values, strings and dictionaries\<close>

text \<open>
  The catalog (\<open>config.json\<close>) is a list of JSON objects and the scanner produces Python
  dictionaries. A value is one of the shapes the code distinguishes with \<open>is None\<close>,
  \<open>isinstance(_, str)\<close>, \<open>isinstance(_, list)\<close> and truthiness; lists hold strings
  (package names, helper paths, component apps, TCC services).
\<close>

datatype pyval = PyNone | PyBool bool | PyStr string | PyList "string list"

type_synonym pydict = "string \<rightharpoonup> pyval"

text \<open>The exceptions the modelled code can raise.\<close>

datatype error =
  OSError | InvalidFileException | AttributeError | KeyError | IndexError
  | TypeError | ZeroDivisionError | EOFError | ValueError

text \<open>\<open>d.get(k)\<close>: the value under \<open>k\<close>, \<open>None\<close> when the key is absent.\<close>

definition dict_get :: "pydict \<Rightarrow> string \<Rightarrow> pyval" where
  "dict_get d k = (case d k of None \<Rightarrow> PyNone | Some v \<Rightarrow> v)"

text \<open>
  A string is the list of its characters; comparison, concatenation and the substring
  test work on that list. What the interpreter decides from its Unicode tables is not
  fixed here: \<open>str.strip()\<close>, \<open>str.lower()\<close>, \<open>str.isdigit()\<close> and \<open>int(_)\<close> on a
  string are parameters of the model, and every property below holds whatever they are.
  \<open>int\<close> raises \<open>ValueError\<close> on a string it cannot read: \<open>None\<close> stands for that.
  \<open>str.isdigit()\<close> accepts strings that \<open>int\<close> rejects (a superscript two, a string
  of more digits than the interpreter converts), so the two are independent.
\<close>

record str_methods =
  str_strip :: "string \<Rightarrow> string"
  str_lower :: "string \<Rightarrow> string"
  str_isdigit :: "string \<Rightarrow> bool"
  str_int :: "string \<Rightarrow> int option"

text \<open>Python's \<open>needle in haystack\<close> on strings: a scan for the first position that matches.\<close>

fun starts_with :: "string \<Rightarrow> string \<Rightarrow> bool" where
  "starts_with [] ys = True"
| "starts_with (x # xs) [] = False"
| "starts_with (x # xs) (y # ys) = (x = y \<and> starts_with xs ys)"

fun py_in :: "string \<Rightarrow> string \<Rightarrow> bool" where
  "py_in n [] = (n = [])"
| "py_in n (h # hs) = (starts_with n (h # hs) \<or> py_in n hs)"

section \<open>The matcher: \<open>search_apps\<close> (main.py, lines 12 to 33)\<close>

text \<open>
  An installed app, as \<open>parse_app_info\<close> builds it: every key is present. The bundle
  identifier is read with \<open>.get\<close> and no default, so it is \<open>None\<close> when the manifest
  has none.
\<close>

record installed_app =
  appBaseLocate :: string
  CFBundleIdentifier :: pyval
  CFBundleVersion :: string
  CFBundleShortVersionString :: string
  CFBundleName :: string
  CFBundleExecutable :: string

text \<open>\<open>any(keyword.lower() in name.lower() for name in package_name)\<close>\<close>

fun any_name_matches :: "str_methods \<Rightarrow> string \<Rightarrow> string list \<Rightarrow> bool" where
  "any_name_matches t keyword [] = False"
| "any_name_matches t keyword (name # names) =
     (if py_in (str_lower t keyword) (str_lower t name) then True
      else any_name_matches t keyword names)"

text \<open>
  The inner loop over the installed apps (lines 27 to 31): \<open>True\<close> when the loop reaches
  its \<open>append\<close> and \<open>break\<close>, \<open>False\<close> when it runs to the end of the list.
\<close>

fun bundle_name_matches :: "str_methods \<Rightarrow> string \<Rightarrow> pyval \<Rightarrow> installed_app list \<Rightarrow> bool" where
  "bundle_name_matches t keyword package_name [] = False"
| "bundle_name_matches t keyword package_name (installed # rest) =
     (if CFBundleIdentifier installed = package_name
      then (if py_in (str_lower t keyword) (str_lower t (CFBundleName installed)) then True
            else bundle_name_matches t keyword package_name rest)
      else bundle_name_matches t keyword package_name rest)"

text \<open>The outer loop, with \<open>matched_apps\<close> as the accumulator.\<close>

fun search_loop ::
  "str_methods \<Rightarrow> pydict list \<Rightarrow> pydict list \<Rightarrow> installed_app list \<Rightarrow> string \<Rightarrow> pydict list" where
  "search_loop t matched_apps [] install_apps keyword = matched_apps"
| "search_loop t matched_apps (app # rest) install_apps keyword =
     (let package_name = dict_get app ''packageName'' in
      case package_name of
        PyList names \<Rightarrow>
          if any_name_matches t keyword names
          then search_loop t (matched_apps @ [app]) rest install_apps keyword
          else if bundle_name_matches t keyword package_name install_apps
          then search_loop t (matched_apps @ [app]) rest install_apps keyword
          else search_loop t matched_apps rest install_apps keyword
      | PyStr s \<Rightarrow>
          if py_in (str_lower t keyword) (str_lower t s)
          then search_loop t (matched_apps @ [app]) rest install_apps keyword
          else if bundle_name_matches t keyword package_name install_apps
          then search_loop t (matched_apps @ [app]) rest install_apps keyword
          else search_loop t matched_apps rest install_apps keyword
      | _ \<Rightarrow>
          if bundle_name_matches t keyword package_name install_apps
          then search_loop t (matched_apps @ [app]) rest install_apps keyword
          else search_loop t matched_apps rest install_apps keyword)"

definition search_apps ::
  "str_methods \<Rightarrow> pydict list \<Rightarrow> installed_app list \<Rightarrow> string \<Rightarrow> pydict list" where
  "search_apps t app_list install_apps keyword = search_loop t [] app_list install_apps keyword"

text \<open>Whether the body of the outer loop appends the entry: the three branches of lines 18 to 31.\<close>

definition appended :: "str_methods \<Rightarrow> string \<Rightarrow> installed_app list \<Rightarrow> pydict \<Rightarrow> bool" where
  "appended t keyword install_apps app =
     (case dict_get app ''packageName'' of
        PyList names \<Rightarrow>
          any_name_matches t keyword names \<or>
          bundle_name_matches t keyword (PyList names) install_apps
      | PyStr s \<Rightarrow>
          py_in (str_lower t keyword) (str_lower t s) \<or>
          bundle_name_matches t keyword (PyStr s) install_apps
      | v \<Rightarrow> bundle_name_matches t keyword v install_apps)"

text \<open>
  The matcher as the specification words it. The keyword is a case-insensitive substring
  of \<open>s\<close> when the lowered keyword occurs somewhere inside the lowered \<open>s\<close>.
\<close>

definition ci_substring :: "str_methods \<Rightarrow> string \<Rightarrow> string \<Rightarrow> bool" where
  "ci_substring t keyword s = (\<exists>pre suf. str_lower t s = pre @ str_lower t keyword @ suf)"

text \<open>The package names of an entry: the listed ones, or the single one.\<close>

fun package_names :: "pyval \<Rightarrow> string list" where
  "package_names (PyList names) = names"
| "package_names (PyStr s) = [s]"
| "package_names _ = []"

text \<open>
  An entry matches when, for one of its package names, the keyword is a
  case-insensitive substring of that name, or of the display name of an installed app
  whose bundle identifier is that name.
\<close>

definition entry_matches :: "str_methods \<Rightarrow> string \<Rightarrow> installed_app list \<Rightarrow> pydict \<Rightarrow> bool" where
  "entry_matches t keyword install_apps app =
     (\<exists>name \<in> set (package_names (dict_get app ''packageName'')).
        ci_substring t keyword name \<or>
        (\<exists>installed \<in> set install_apps.
           CFBundleIdentifier installed = PyStr name \<and>
           ci_substring t keyword (CFBundleName installed)))"

section \<open>The compatibility gate: \<open>check_compatible\<close> (main.py, lines 71 to 90)\<close>

text \<open>The \<open>for code in ...: if v == code: return True\<close> loop.\<close>

fun code_listed :: "'a \<Rightarrow> 'a list \<Rightarrow> bool" where
  "code_listed v [] = False"
| "code_listed v (code # codes) = (if v = code then True else code_listed v codes)"

text \<open>
  An allow-list is \<open>None\<close> or a list. \<open>if compatible_version_code:\<close> is the truthiness
  test: it skips \<open>None\<close> and the empty list.
\<close>

definition check_compatible ::
  "'a list option \<Rightarrow> 'a list option \<Rightarrow> 'a \<Rightarrow> 'a \<Rightarrow> bool" where
  "check_compatible compatible_version_code compatible_version_subcode
       app_version_code app_subversion_code =
     (if compatible_version_code = None \<and> compatible_version_subcode = None then True
      else if (case compatible_version_code of
                 None \<Rightarrow> False
               | Some codes \<Rightarrow> codes \<noteq> [] \<and> code_listed app_version_code codes) then True
      else if (case compatible_version_subcode of
                 None \<Rightarrow> False
               | Some codes \<Rightarrow> codes \<noteq> [] \<and> code_listed app_subversion_code codes) then True
      else False)"

section \<open>A sample of the string methods\<close>

text \<open>
  To run the definitions on concrete strings: the string methods as Python has them on
  strings whose characters are the code points below 256, one \<open>char\<close> each. White space
  is the tab, the line feed, the vertical tab, the form feed, the carriage return, the
  separators \<open>0x1C\<close> to \<open>0x1F\<close>, the space, the next-line character \<open>0x85\<close> and the
  no-break space \<open>0xA0\<close>. The upper-case letters are \<open>A\<close> to \<open>Z\<close> and \<open>0xC0\<close> to
  \<open>0xDE\<close> without the multiplication sign \<open>0xD7\<close>; each has its lower-case letter 32
  places on. \<open>isdigit\<close> accepts the ten decimal digits and the superscripts one, two and
  three (\<open>0xB9\<close>, \<open>0xB2\<close>, \<open>0xB3\<close>); \<open>int\<close> reads a string of at most 4300 decimal
  digits and raises on every other string that \<open>isdigit\<close> accepts; the code calls
  \<open>int\<close> on no other strings.
\<close>

definition sample_space :: "char list" where
  "sample_space = [CHR 0x09, CHR 0x0A, CHR 0x0B, CHR 0x0C, CHR 0x0D, CHR 0x1C, CHR 0x1D, CHR 0x1E,
     CHR 0x1F, CHR 0x20, CHR 0x85, CHR 0xA0]"

definition sample_upper :: "char list" where
  "sample_upper = [CHR 0x41, CHR 0x42, CHR 0x43, CHR 0x44, CHR 0x45, CHR 0x46, CHR 0x47, CHR 0x48,
     CHR 0x49, CHR 0x4A, CHR 0x4B, CHR 0x4C, CHR 0x4D, CHR 0x4E, CHR 0x4F, CHR 0x50, CHR
     0x51, CHR 0x52, CHR 0x53, CHR 0x54, CHR 0x55, CHR 0x56, CHR 0x57, CHR 0x58, CHR
     0x59, CHR 0x5A, CHR 0xC0, CHR 0xC1, CHR 0xC2, CHR 0xC3, CHR 0xC4, CHR 0xC5, CHR
     0xC6, CHR 0xC7, CHR 0xC8, CHR 0xC9, CHR 0xCA, CHR 0xCB, CHR 0xCC, CHR 0xCD, CHR
     0xCE, CHR 0xCF, CHR 0xD0, CHR 0xD1, CHR 0xD2, CHR 0xD3, CHR 0xD4, CHR 0xD5, CHR
     0xD6, CHR 0xD8, CHR 0xD9, CHR 0xDA, CHR 0xDB, CHR 0xDC, CHR 0xDD, CHR 0xDE]"

definition sample_lower_case :: "char list" where
  "sample_lower_case = [CHR 0x61, CHR 0x62, CHR 0x63, CHR 0x64, CHR 0x65, CHR 0x66, CHR 0x67, CHR 0x68,
     CHR 0x69, CHR 0x6A, CHR 0x6B, CHR 0x6C, CHR 0x6D, CHR 0x6E, CHR 0x6F, CHR 0x70, CHR
     0x71, CHR 0x72, CHR 0x73, CHR 0x74, CHR 0x75, CHR 0x76, CHR 0x77, CHR 0x78, CHR
     0x79, CHR 0x7A, CHR 0xE0, CHR 0xE1, CHR 0xE2, CHR 0xE3, CHR 0xE4, CHR 0xE5, CHR
     0xE6, CHR 0xE7, CHR 0xE8, CHR 0xE9, CHR 0xEA, CHR 0xEB, CHR 0xEC, CHR 0xED, CHR
     0xEE, CHR 0xEF, CHR 0xF0, CHR 0xF1, CHR 0xF2, CHR 0xF3, CHR 0xF4, CHR 0xF5, CHR
     0xF6, CHR 0xF8, CHR 0xF9, CHR 0xFA, CHR 0xFB, CHR 0xFC, CHR 0xFD, CHR 0xFE]"

definition sample_strip :: "string \<Rightarrow> string" where
  "sample_strip s =
     rev (dropWhile (\<lambda>c. c \<in> set sample_space) (rev (dropWhile (\<lambda>c. c \<in> set sample_space) s)))"

definition sample_lower :: "string \<Rightarrow> string" where
  "sample_lower s =
     map (\<lambda>c. case map_of (zip sample_upper sample_lower_case) c of None \<Rightarrow> c | Some l \<Rightarrow> l) s"

definition sample_isdigit :: "string \<Rightarrow> bool" where
  "sample_isdigit s \<longleftrightarrow>
     s \<noteq> [] \<and> (\<forall>c \<in> set s. c \<in> set (''0123456789'' @ [CHR 0xB2, CHR 0xB3, CHR 0xB9]))"

definition sample_digit :: "char \<Rightarrow> int" where
  "sample_digit c =
     (case map_of (zip ''0123456789'' [0, 1, 2, 3, 4, 5, 6, 7, 8, 9]) c of
        None \<Rightarrow> 0
      | Some d \<Rightarrow> d)"

definition sample_int :: "string \<Rightarrow> int option" where
  "sample_int s =
     (if s \<noteq> [] \<and> (\<forall>c \<in> set s. c \<in> set ''0123456789'') \<and> length s \<le> 4300
      then Some (foldl (\<lambda>n c. 10 * n + sample_digit c) 0 s)
      else None)"

definition demo_str :: str_methods where
  "demo_str = \<lparr> str_strip = sample_strip, str_lower = sample_lower,
                 str_isdigit = sample_isdigit, str_int = sample_int \<rparr>"

section \<open>The bundle scanner: \<open>parse_app_info\<close> and \<open>scan_apps\<close> (main.py, lines 36 to 68)\<close>

text \<open>
  What the scanner sees of the file system: whether a path exists, the entries of a
  directory (\<open>os.listdir\<close> raises on a path that is not a readable directory), and the
  outcome of opening a manifest and handing it to \<open>plistlib.load\<close>. A manifest that
  cannot be opened or parsed is an error; one that parses is a dictionary, here from
  keys to strings, or some other top-level value.
\<close>

datatype plist = PlistDict "string \<rightharpoonup> string" | PlistOther

record filesystem =
  path_exists :: "string \<Rightarrow> bool"
  listdir :: "string \<Rightarrow> error + string list"
  load_plist :: "string \<Rightarrow> error + plist"

text \<open>\<open>os.path.join\<close> (posixpath): an absolute component restarts the path.\<close>

definition join2 :: "string \<Rightarrow> string \<Rightarrow> string" where
  "join2 path b =
     (if starts_with ''/'' b then b
      else if path = [] \<or> last path = CHR ''/'' then path @ b
      else path @ ''/'' @ b)"

definition path_join :: "string \<Rightarrow> string list \<Rightarrow> string" where
  "path_join a ps = foldl join2 a ps"

text \<open>\<open>app_info.get(key, "")\<close> on the manifest dictionary.\<close>

definition get_or_empty :: "(string \<rightharpoonup> string) \<Rightarrow> string \<Rightarrow> string" where
  "get_or_empty m k = (case m k of None \<Rightarrow> [] | Some v \<Rightarrow> v)"

text \<open>The dictionary literal of lines 39 to 46.\<close>

definition app_info_of :: "string \<Rightarrow> (string \<rightharpoonup> string) \<Rightarrow> installed_app" where
  "app_info_of app_base_locate app_info =
     \<lparr> appBaseLocate = app_base_locate,
       CFBundleIdentifier =
         (case app_info ''CFBundleIdentifier'' of None \<Rightarrow> PyNone | Some v \<Rightarrow> PyStr v),
       CFBundleVersion = get_or_empty app_info ''CFBundleVersion'',
       CFBundleShortVersionString = get_or_empty app_info ''CFBundleShortVersionString'',
       CFBundleName = get_or_empty app_info ''CFBundleExecutable'',
       CFBundleExecutable = get_or_empty app_info ''CFBundleExecutable'' \<rparr>"

text \<open>
  \<open>parse_app_info\<close>: the error of \<open>open\<close> or \<open>plistlib.load\<close> propagates; \<open>.get\<close> on
  a top-level value that is no dictionary raises \<open>AttributeError\<close>.
\<close>

definition parse_app_info :: "filesystem \<Rightarrow> string \<Rightarrow> string \<Rightarrow> error + installed_app" where
  "parse_app_info fs app_base_locate app_info_file =
     (case load_plist fs app_info_file of
        Inl e \<Rightarrow> Inl e
      | Inr PlistOther \<Rightarrow> Inl AttributeError
      | Inr (PlistDict app_info) \<Rightarrow> Inr (app_info_of app_base_locate app_info))"

definition base_dirs :: "string list" where
  "base_dirs = [''/Applications'', ''/Applications/Setapp'']"

text \<open>The inner loop over the entries of one root; \<open>except Exception: continue\<close>.\<close>

fun scan_dir ::
  "filesystem \<Rightarrow> string \<Rightarrow> installed_app list \<Rightarrow> string list \<Rightarrow> installed_app list" where
  "scan_dir fs base_dir appList [] = appList"
| "scan_dir fs base_dir appList (app # lst) =
     (let app_info_file = path_join base_dir [app, ''Contents'', ''Info.plist''] in
      if \<not> path_exists fs app_info_file then scan_dir fs base_dir appList lst
      else case parse_app_info fs (base_dir @ ''/'' @ app) app_info_file of
             Inl e \<Rightarrow> scan_dir fs base_dir appList lst
           | Inr info \<Rightarrow> scan_dir fs base_dir (appList @ [info]) lst)"

text \<open>The outer loop over the roots. \<open>os.listdir\<close> stands outside the \<open>try\<close>.\<close>

fun scan_roots :: "filesystem \<Rightarrow> installed_app list \<Rightarrow> string list \<Rightarrow> error + installed_app list" where
  "scan_roots fs appList [] = Inr appList"
| "scan_roots fs appList (base_dir # rest) =
     (if \<not> path_exists fs base_dir then scan_roots fs appList rest
      else case listdir fs base_dir of
             Inl e \<Rightarrow> Inl e
           | Inr lst \<Rightarrow> scan_roots fs (scan_dir fs base_dir appList lst) rest)"

definition scan_apps :: "filesystem \<Rightarrow> error + installed_app list" where
  "scan_apps fs = scan_roots fs [] base_dirs"

text \<open>
  The scanner as the specification words it. A subdirectory \<open>app\<close> of a root has a
  readable, well-formed manifest when \<open>Contents/Info.plist\<close> exists under it and loads
  as a dictionary; its record is then built from that dictionary.
\<close>

definition manifest_path :: "string \<Rightarrow> string \<Rightarrow> string" where
  "manifest_path base_dir app = path_join base_dir [app, ''Contents'', ''Info.plist'']"

definition manifest_of :: "filesystem \<Rightarrow> string \<Rightarrow> string \<Rightarrow> (string \<rightharpoonup> string) option" where
  "manifest_of fs base_dir app =
     (if path_exists fs (manifest_path base_dir app)
      then (case load_plist fs (manifest_path base_dir app) of
              Inr (PlistDict m) \<Rightarrow> Some m
            | _ \<Rightarrow> None)
      else None)"

definition bundle_record :: "filesystem \<Rightarrow> string \<Rightarrow> string \<Rightarrow> installed_app option" where
  "bundle_record fs base_dir app =
     map_option (app_info_of (base_dir @ ''/'' @ app)) (manifest_of fs base_dir app)"

definition entries_of :: "filesystem \<Rightarrow> string \<Rightarrow> string list" where
  "entries_of fs base_dir = (case listdir fs base_dir of Inl e \<Rightarrow> [] | Inr lst \<Rightarrow> lst)"

definition listable :: "filesystem \<Rightarrow> string \<Rightarrow> bool" where
  "listable fs base_dir = (case listdir fs base_dir of Inl e \<Rightarrow> False | Inr lst \<Rightarrow> True)"

text \<open>A directory entry is a file name: not empty and without a slash.\<close>

definition entry_name :: "string \<Rightarrow> bool" where
  "entry_name app = (app \<noteq> [] \<and> CHR ''/'' \<notin> set app)"

section \<open>Expanding a catalog entry into work items (main.py, lines 219 to 239)\<close>

text \<open>Python truthiness.\<close>

fun truthy :: "pyval \<Rightarrow> bool" where
  "truthy PyNone = False"
| "truthy (PyBool b) = b"
| "truthy (PyStr s) = (s \<noteq> [])"
| "truthy (PyList l) = (l \<noteq> [])"

text \<open>
  \<open>for name in package_name: tmp = app.copy(); tmp["packageName"] = name;
  app_Lst.append(tmp)\<close>
\<close>

fun expand_names :: "pydict list \<Rightarrow> pydict \<Rightarrow> string list \<Rightarrow> pydict list" where
  "expand_names app_Lst app [] = app_Lst"
| "expand_names app_Lst app (name # names) =
     expand_names (app_Lst @ [app(''packageName'' \<mapsto> PyStr name)]) app names"

text \<open>Keyword mode, lines 219 to 226. \<open>selected_app["packageName"]\<close> raises on a missing key.\<close>

definition expand_selected :: "pydict \<Rightarrow> error + pydict list" where
  "expand_selected selected_app =
     (case selected_app ''packageName'' of
        None \<Rightarrow> Inl KeyError
      | Some (PyList names) \<Rightarrow> Inr (expand_names [] selected_app names)
      | Some _ \<Rightarrow> Inr ([] @ [selected_app]))"

text \<open>
  Browse-all mode, lines 228 to 239. \<open>qiuchenly\<close> is \<open>os.path.exists("/Users/qiuchenly")\<close>.
\<close>

fun browse_all :: "bool \<Rightarrow> pydict list \<Rightarrow> pydict list \<Rightarrow> error + pydict list" where
  "browse_all qiuchenly app_Lst [] = Inr app_Lst"
| "browse_all qiuchenly app_Lst (app # rest) =
     (case app ''packageName'' of
        None \<Rightarrow> Inl KeyError
      | Some package_name \<Rightarrow>
          if truthy (dict_get app ''forQiuChenly'') \<and> \<not> qiuchenly
          then browse_all qiuchenly app_Lst rest
          else (case package_name of
                  PyList names \<Rightarrow> browse_all qiuchenly (expand_names app_Lst app names) rest
                | _ \<Rightarrow> browse_all qiuchenly (app_Lst @ [app]) rest))"

text \<open>
  The work items of an entry as the claim words them: one copy per listed name, with
  only \<open>packageName\<close> replaced; the entry itself when the name is not a list.
\<close>

definition work_items :: "pydict \<Rightarrow> pydict list" where
  "work_items app =
     (case dict_get app ''packageName'' of
        PyList names \<Rightarrow> map (\<lambda>name. app(''packageName'' \<mapsto> PyStr name)) names
      | _ \<Rightarrow> [app])"

definition skipped :: "bool \<Rightarrow> pydict \<Rightarrow> bool" where
  "skipped qiuchenly app = (truthy (dict_get app ''forQiuChenly'') \<and> \<not> qiuchenly)"

text \<open>A file system and a catalog entry to run the definitions on.\<close>

definition demo_manifest :: "string \<rightharpoonup> string" where
  "demo_manifest = [''CFBundleIdentifier'' \<mapsto> ''com.a'', ''CFBundleName'' \<mapsto> ''Alpha'',
     ''CFBundleExecutable'' \<mapsto> ''alpha-bin'']"

definition demo_fs :: filesystem where
  "demo_fs =
     \<lparr> path_exists = (\<lambda>p. p \<in> set [''/Applications'',
          ''/Applications/A.app/Contents/Info.plist'',
          ''/Applications/B.app/Contents/Info.plist'',
          ''/Applications/C.app/Contents/Info.plist'']),
       listdir = (\<lambda>p. if p = ''/Applications''
          then Inr [''A.app'', ''B.app'', ''notes.txt'', ''C.app''] else Inl OSError),
       load_plist = (\<lambda>p.
          if p = ''/Applications/A.app/Contents/Info.plist'' then Inr (PlistDict demo_manifest)
          else if p = ''/Applications/B.app/Contents/Info.plist'' then Inl InvalidFileException
          else if p = ''/Applications/C.app/Contents/Info.plist'' then Inr PlistOther
          else Inl OSError) \<rparr>"

definition demo_entry :: pydict where
  "demo_entry = [''packageName'' \<mapsto> PyList [''com.a'', ''com.b''], ''injectFile'' \<mapsto> PyStr ''a'']"

text \<open>
  The same file system with a second root, \<open>/Applications/Setapp\<close>, that exists and
  cannot be listed (a file of that name, or a directory closed to the user).
\<close>

definition blocked_fs :: filesystem where
  "blocked_fs =
     demo_fs\<lparr> path_exists := (\<lambda>p. p = ''/Applications/Setapp'' \<or> path_exists demo_fs p) \<rparr>"

section \<open>Reading answers\<close>

text \<open>\<open>read_input\<close> of main.py (lines 10 and 11), applied to the line the user typed.\<close>

definition read_input :: "str_methods \<Rightarrow> string \<Rightarrow> string" where
  "read_input t line = str_lower t (str_strip t line)"

text \<open>\<open>str(n)\<close> for a natural number, as an f-string prints it.\<close>

fun str_of_nat :: "nat \<Rightarrow> string" where
  "str_of_nat n =
     (if n < 10 then [''0123456789'' ! n]
      else str_of_nat (n div 10) @ [''0123456789'' ! (n mod 10)])"

text \<open>\<open>xs[i]\<close>: a negative index counts from the end, an index out of range raises.\<close>

definition py_index :: "'a list \<Rightarrow> int \<Rightarrow> error + 'a" where
  "py_index xs i =
     (if 0 \<le> i \<and> i < int (length xs) then Inr (xs ! nat i)
      else if i < 0 \<and> - int (length xs) \<le> i then Inr (xs ! nat (int (length xs) + i))
      else Inl IndexError)"

section \<open>The number prompt of main.py (lines 212 to 218)\<close>

datatype selection = Exited | Chosen pydict

text \<open>
  \<open>choice = input().strip()\<close>; anything but a number from 1 to \<open>len(matched_apps)\<close>
  prints the exit message and returns from \<open>main\<close>. The test is
  \<open>not choice.isdigit() or int(choice) == 0 or int(choice) > len(matched_apps)\<close>: \<open>int\<close>
  is called on every line \<open>isdigit\<close> accepts, and its \<open>ValueError\<close> is caught nowhere.
\<close>

definition choose_app :: "str_methods \<Rightarrow> pydict list \<Rightarrow> string \<Rightarrow> error + selection" where
  "choose_app t matched_apps line =
     (let choice = str_strip t line in
      if \<not> str_isdigit t choice then Inr Exited
      else case str_int t choice of
             None \<Rightarrow> Inl ValueError
           | Some number \<Rightarrow>
               if number = 0 \<or> number > int (length matched_apps) then Inr Exited
               else (case py_index matched_apps (number - 1) of
                       Inl e \<Rightarrow> Inl e
                     | Inr selected_app \<Rightarrow> Inr (Chosen selected_app)))"

text \<open>
  The prompt on the lines the user will type: it reads one line, and returns the outcome
  with the lines it has not read.
\<close>

definition select_from_matches ::
  "str_methods \<Rightarrow> pydict list \<Rightarrow> string list \<Rightarrow> error + selection \<times> string list" where
  "select_from_matches t matched_apps inputs =
     (case inputs of
        [] \<Rightarrow> Inl EOFError
      | line # rest \<Rightarrow>
          (case choose_app t matched_apps line of
             Inl e \<Rightarrow> Inl e
           | Inr chosen \<Rightarrow> Inr (chosen, rest)))"

section \<open>The menu manager (menu_manager.py)\<close>

text \<open>
  The fields of \<open>MenuManager\<close> that \<open>show_main_menu\<close> reads and writes, and what it uses
  of the application manager. \<open>display_supported_apps\<close> (module \<open>src.app.search\<close>) and
  the methods of the application manager are not part of the files at hand: they are
  parameters. \<open>display_supported_apps\<close> takes the catalog, the installed apps, the
  current page and the page size, and returns the apps it displayed, the page it
  displayed and the number of pages.
\<close>

record menu_manager =
  current_page :: int
  page_size :: int
  last_displayed_apps :: "pydict list"

record app_manager =
  app_list :: "pydict list"
  installed_apps :: "installed_app list"
  get_installed_supported_apps :: "pydict list"
  search_by_keyword :: "string \<Rightarrow> pydict list"

type_synonym display =
  "pydict list \<Rightarrow> installed_app list \<Rightarrow> int \<Rightarrow> int \<Rightarrow> pydict list \<times> int \<times> int"

datatype menu_outcome = Again menu_manager | Chose string menu_manager | Raised error

text \<open>Lines 192 and 193: the page and the offset within the page of the app numbered \<open>app_idx\<close>.\<close>

definition locate_app :: "int \<Rightarrow> int \<Rightarrow> int \<times> int" where
  "locate_app app_idx psize = ((app_idx - 1) div psize, (app_idx - 1) mod psize)"

text \<open>
  Lines 216 to 221: the position of the first installed supported app with the given
  package name; \<open>None\<close> stands for \<open>global_idx = -1\<close>.
\<close>

fun find_package :: "pyval \<Rightarrow> pydict list \<Rightarrow> nat \<Rightarrow> nat option" where
  "find_package package_name [] i = None"
| "find_package package_name (app # apps) i =
     (if dict_get app ''packageName'' = package_name then Some i
      else find_package package_name apps (Suc i))"

text \<open>
  Lines 180 to 237, the digit branch. \<open>int(choice)\<close> stands inside the \<open>try\<close>: its
  \<open>ValueError\<close> prints a message and the loop goes on. Line 199 assigns the page count
  to the name \<open>_\<close>, which until then held the translation function imported at line
  128: after a page switch, the two messages of lines 227 and 230 call an integer and
  raise \<open>TypeError\<close>, which the \<open>except ValueError\<close> does not catch. A page size of
  zero raises \<open>ZeroDivisionError\<close>.
\<close>

definition select_by_number ::
  "str_methods \<Rightarrow> display \<Rightarrow> app_manager \<Rightarrow> menu_manager \<Rightarrow> string \<Rightarrow> menu_outcome" where
  "select_by_number t display am self choice =
     (case str_int t choice of
        None \<Rightarrow> Again self
      | Some app_idx \<Rightarrow>
          if choice \<in> set [''1'', ''2'', ''3'', ''4'', ''5''] then Chose choice self
          else
            let total_apps = int (length (get_installed_supported_apps am)) in
            if 1 \<le> app_idx \<and> app_idx \<le> total_apps then
              if page_size self = 0 then Raised ZeroDivisionError
              else
                let (page_num, page_idx) = locate_app app_idx (page_size self);
                    switched = (current_page self \<noteq> page_num);
                    self = (if switched
                            then self\<lparr>current_page := page_num,
                                   last_displayed_apps :=
                                     fst (display (app_list am) (installed_apps am) page_num
                                            (page_size self))\<rparr>
                            else self)
                in
                if page_idx < int (length (last_displayed_apps self)) then
                  (case py_index (last_displayed_apps self) page_idx of
                     Inl e \<Rightarrow> Raised e
                   | Inr selected_app \<Rightarrow>
                       (case find_package (dict_get selected_app ''packageName'')
                               (get_installed_supported_apps am) 0 of
                          Some global_idx \<Rightarrow> Chose (''SELECT:'' @ str_of_nat global_idx) self
                        | None \<Rightarrow> if switched then Raised TypeError else Again self))
                else if switched then Raised TypeError else Again self
            else Again self)"

text \<open>
  One turn of the loop of \<open>show_main_menu\<close> (lines 130 to 240), for the answer \<open>choice\<close>
  that \<open>read_input\<close> returned.
\<close>

definition menu_turn ::
  "str_methods \<Rightarrow> display \<Rightarrow> app_manager \<Rightarrow> menu_manager \<Rightarrow> string \<Rightarrow> menu_outcome" where
  "menu_turn t display am self choice =
     (case display (app_list am) (installed_apps am) (current_page self) (page_size self) of
        (displayed_apps, page, total_pages) \<Rightarrow>
          let self = self\<lparr>current_page := page, last_displayed_apps := displayed_apps\<rparr> in
          if choice = ''n'' then
            (if current_page self < total_pages - 1
             then Again (self\<lparr>current_page := current_page self + 1\<rparr>)
             else Again self)
          else if choice = ''p'' then
            (if current_page self > 0
             then Again (self\<lparr>current_page := current_page self - 1\<rparr>)
             else Again self)
          else if choice = ''s'' then Chose ''1'' self
          else if choice = ''l'' then Chose ''4'' self
          else if choice = ''q'' then Chose ''5'' self
          else if str_isdigit t choice then select_by_number t display am self choice
          else Again self)"

text \<open>
  The menu manager as a turn leaves it when nothing was chosen: lines 143 to 148 have
  stored the page that was displayed and its apps.
\<close>

definition refreshed :: "display \<Rightarrow> app_manager \<Rightarrow> menu_manager \<Rightarrow> menu_manager" where
  "refreshed display am self =
     (case display (app_list am) (installed_apps am) (current_page self) (page_size self) of
        (displayed_apps, page, total_pages) \<Rightarrow>
          self\<lparr>current_page := page, last_displayed_apps := displayed_apps\<rparr>)"

text \<open>
  \<open>show_main_menu\<close> on the answers the user will give, one per turn. Without an
  application manager it returns \<open>"5"\<close>; when the answers run out, the read fails.
\<close>

fun show_main_menu ::
  "str_methods \<Rightarrow> display \<Rightarrow> app_manager option \<Rightarrow> menu_manager \<Rightarrow> string list \<Rightarrow>
   error + string \<times> menu_manager" where
  "show_main_menu t display None self answers = Inr (''5'', self)"
| "show_main_menu t display (Some am) self [] = Inl EOFError"
| "show_main_menu t display (Some am) self (choice # answers) =
     (case menu_turn t display am self choice of
        Again self' \<Rightarrow> show_main_menu t display (Some am) self' answers
      | Chose r self' \<Rightarrow> Inr (r, self')
      | Raised e \<Rightarrow> Inl e)"

text \<open>
  The selection loop of \<open>handle_app_search\<close> (lines 271 to 313), on the lines the user
  will type. \<open>app_Lst\<close> is the list built so far, \<open>selected\<close> the set of chosen indices.
  The test of line 296 is \<open>choice.isdigit() and 0 < int(choice) <= len(matched_apps)\<close>,
  outside any \<open>try\<close>: a line that \<open>isdigit\<close> accepts and \<open>int\<close> rejects raises
  \<open>ValueError\<close> out of the function.
\<close>

fun select_loop ::
  "str_methods \<Rightarrow> pydict list \<Rightarrow> pydict list \<Rightarrow> nat set \<Rightarrow> string list \<Rightarrow> error + pydict list" where
  "select_loop t matched_apps app_Lst selected [] =
     (if card selected < length matched_apps then Inl EOFError else Inr app_Lst)"
| "select_loop t matched_apps app_Lst selected (line # inputs) =
     (if \<not> card selected < length matched_apps then Inr app_Lst
      else if card selected = length matched_apps then Inr app_Lst
      else
        let choice = str_strip t line;
            otherwise =
              (if choice = [] then
                 (if app_Lst = [] then select_loop t matched_apps app_Lst selected inputs
                  else Inr app_Lst)
               else select_loop t matched_apps app_Lst selected inputs)
        in
        if choice = ''0'' then (if app_Lst = [] then Inr [] else Inr app_Lst)
        else if str_isdigit t choice then
          (case str_int t choice of
             None \<Rightarrow> Inl ValueError
           | Some number \<Rightarrow>
               if 0 < number \<and> number \<le> int (length matched_apps) then
                 (let index = nat (number - 1) in
                  if index \<notin> selected
                  then select_loop t matched_apps (app_Lst @ [matched_apps ! index])
                         (insert index selected) inputs
                  else select_loop t matched_apps app_Lst selected inputs)
               else otherwise)
        else otherwise)"

definition handle_app_search :: "str_methods \<Rightarrow> app_manager \<Rightarrow> string list \<Rightarrow> error + pydict list" where
  "handle_app_search t am inputs =
     (case inputs of
        [] \<Rightarrow> Inl EOFError
      | line # rest \<Rightarrow>
          let keyword = str_strip t line in
          if keyword = [] then Inr []
          else
            let matched_apps = search_by_keyword am keyword in
            if matched_apps = [] then Inr [] else select_loop t matched_apps [] {} rest)"

text \<open>
  What a line is to the selection loop of \<open>n\<close> matched apps. It names an app when,
  stripped, it is accepted by \<open>isdigit\<close> and read by \<open>int\<close> as a number from 1 to \<open>n\<close>;
  it breaks the loop when \<open>isdigit\<close> accepts it and \<open>int\<close> rejects it.
\<close>

definition names_app :: "str_methods \<Rightarrow> nat \<Rightarrow> string \<Rightarrow> bool" where
  "names_app t n line \<longleftrightarrow>
     str_isdigit t (str_strip t line) \<and>
     (case str_int t (str_strip t line) of
        None \<Rightarrow> False
      | Some number \<Rightarrow> 0 < number \<and> number \<le> int n)"

definition unreadable :: "str_methods \<Rightarrow> string \<Rightarrow> bool" where
  "unreadable t choice \<longleftrightarrow> str_isdigit t choice \<and> str_int t choice = None"

definition index_named :: "str_methods \<Rightarrow> string \<Rightarrow> nat" where
  "index_named t line =
     (case str_int t (str_strip t line) of None \<Rightarrow> 0 | Some number \<Rightarrow> nat (number - 1))"

text \<open>
  The indices a run of input lines selects, in the order of selection: the lines that
  name an app, as indices, each index kept where it first occurs.
\<close>

definition picks :: "str_methods \<Rightarrow> nat \<Rightarrow> string list \<Rightarrow> nat list" where
  "picks t n lines = map (index_named t) (filter (names_app t n) lines)"

definition first_occurrences :: "nat list \<Rightarrow> nat list" where
  "first_occurrences is = rev (remdups (rev is))"

text \<open>An application manager and a display function to run the definitions on.\<close>

definition demo_app :: "string \<Rightarrow> pydict" where
  "demo_app name = [''packageName'' \<mapsto> PyStr name]"

definition demo_apps :: "pydict list" where
  "demo_apps = map demo_app
     [''com.a'', ''com.b'', ''com.c'', ''com.d'', ''com.e'', ''com.f'', ''com.g'']"

definition demo_manager :: app_manager where
  "demo_manager = \<lparr> app_list = demo_apps, installed_apps = [],
     get_installed_supported_apps = demo_apps, search_by_keyword = (\<lambda>keyword. demo_apps) \<rparr>"

text \<open>Pages of \<open>psize\<close> apps; the page is clamped into the pages there are.\<close>

definition demo_display :: display where
  "demo_display apps installed page psize =
     (let total_pages = (int (length apps) + psize - 1) div psize;
          page = max 0 (min page (total_pages - 1))
      in (take (nat psize) (drop (nat (page * psize)) apps), page, total_pages))"

definition demo_menu :: menu_manager where
  "demo_menu = \<lparr> current_page = 0, page_size = 2, last_displayed_apps = [] \<rparr>"

section \<open>The action sequencer (main.py, lines 358 to 490, with its helpers)\<close>

text \<open>
  The sequencer talks to the operating system: it starts external commands, asks whether
  a path exists, removes a file, reads a line from the user and loads manifests. The
  operating system is a record of such operations over a state of the world \<open>'w\<close>,
  about which nothing is assumed. \<open>os_run\<close> is \<open>subprocess.run\<close> without \<open>check\<close>: it
  gives the exit status of the command and the world the command leaves behind, and
  never raises.
\<close>

datatype command = Shell string | Argv "string list"

record 'w os =
  os_run :: "command \<Rightarrow> 'w \<Rightarrow> int \<times> 'w"
  os_exists :: "string \<Rightarrow> 'w \<Rightarrow> bool"
  os_remove :: "string \<Rightarrow> 'w \<Rightarrow> error + 'w"
  os_input :: "'w \<Rightarrow> error + string \<times> 'w"
  os_load_plist :: "string \<Rightarrow> 'w \<Rightarrow> error + plist"
  os_home :: string

text \<open>
  What the sequencer does, in order: the commands it starts, the files it removes and the
  messages it prints.
\<close>

datatype message =
  MsgStart pyval | MsgRegistering | MsgBackupExists | MsgNeedDeepSign | MsgSigning | MsgFinished

datatype action = Run command | Remove string | Print message

type_synonym 'w st = "'w \<times> action list"

text \<open>
  A step takes the world and the log so far, and either raises or returns a value with
  the new world and log.
\<close>

definition unit_m :: "'a \<Rightarrow> 'w st \<Rightarrow> error + 'a \<times> 'w st" where
  "unit_m x s = Inr (x, s)"

definition bind_m ::
  "('w st \<Rightarrow> error + 'a \<times> 'w st) \<Rightarrow> ('a \<Rightarrow> 'w st \<Rightarrow> error + 'b \<times> 'w st) \<Rightarrow>
   'w st \<Rightarrow> error + 'b \<times> 'w st" where
  "bind_m f g s = (case f s of Inl e \<Rightarrow> Inl e | Inr (x, s') \<Rightarrow> g x s')"

text \<open>A statement whose value is dropped, as \<open>subprocess.run(...)\<close> on a line of its own.\<close>

definition ignore :: "('w st \<Rightarrow> error + 'a \<times> 'w st) \<Rightarrow> 'w st \<Rightarrow> error + unit \<times> 'w st" where
  "ignore f = bind_m f (\<lambda>x. unit_m ())"

definition seq_m ::
  "('w st \<Rightarrow> error + unit \<times> 'w st) \<Rightarrow> ('w st \<Rightarrow> error + 'b \<times> 'w st) \<Rightarrow>
   'w st \<Rightarrow> error + 'b \<times> 'w st" where
  "seq_m f g = bind_m f (\<lambda>x. g)"

definition do_all :: "('w st \<Rightarrow> error + unit \<times> 'w st) list \<Rightarrow> 'w st \<Rightarrow> error + unit \<times> 'w st" where
  "do_all steps = foldr seq_m steps (unit_m ())"

definition when_m :: "bool \<Rightarrow> ('w st \<Rightarrow> error + unit \<times> 'w st) \<Rightarrow> 'w st \<Rightarrow> error + unit \<times> 'w st" where
  "when_m b f = (if b then f else unit_m ())"

text \<open>A \<open>for\<close> loop, and a list comprehension, whose bodies act on the world.\<close>

fun for_m :: "('a \<Rightarrow> 'w st \<Rightarrow> error + 'b \<times> 'w st) \<Rightarrow> 'a list \<Rightarrow> 'w st \<Rightarrow> error + unit \<times> 'w st" where
  "for_m f [] s = Inr ((), s)"
| "for_m f (x # xs) s = (case f x s of Inl e \<Rightarrow> Inl e | Inr (y, s') \<Rightarrow> for_m f xs s')"

fun map_m :: "('a \<Rightarrow> 'w st \<Rightarrow> error + 'b \<times> 'w st) \<Rightarrow> 'a list \<Rightarrow> 'w st \<Rightarrow> error + 'b list \<times> 'w st" where
  "map_m f [] s = Inr ([], s)"
| "map_m f (x # xs) s =
     (case f x s of
        Inl e \<Rightarrow> Inl e
      | Inr (y, s') \<Rightarrow>
          (case map_m f xs s' of Inl e \<Rightarrow> Inl e | Inr (ys, s'') \<Rightarrow> Inr (y # ys, s'')))"

text \<open>
  \<open>subprocess.run\<close>: the command is logged, the world moves on, and the exit status is
  the value returned.
\<close>

definition run_cmd :: "'w os \<Rightarrow> command \<Rightarrow> 'w st \<Rightarrow> error + int \<times> 'w st" where
  "run_cmd os c s =
     (case s of (w, log) \<Rightarrow> Inr (fst (os_run os c w), (snd (os_run os c w), log @ [Run c])))"

definition print_msg :: "message \<Rightarrow> 'w st \<Rightarrow> error + unit \<times> 'w st" where
  "print_msg m s = (case s of (w, log) \<Rightarrow> Inr ((), (w, log @ [Print m])))"

definition path_exists_m :: "'w os \<Rightarrow> string \<Rightarrow> 'w st \<Rightarrow> error + bool \<times> 'w st" where
  "path_exists_m os p s = Inr (os_exists os p (fst s), s)"

definition remove_m :: "'w os \<Rightarrow> string \<Rightarrow> 'w st \<Rightarrow> error + unit \<times> 'w st" where
  "remove_m os p s =
     (case s of (w, log) \<Rightarrow>
        (case os_remove os p w of Inl e \<Rightarrow> Inl e | Inr w' \<Rightarrow> Inr ((), (w', log @ [Remove p]))))"

definition input_m :: "'w os \<Rightarrow> 'w st \<Rightarrow> error + string \<times> 'w st" where
  "input_m os s =
     (case s of (w, log) \<Rightarrow>
        (case os_input os w of Inl e \<Rightarrow> Inl e | Inr (line, w') \<Rightarrow> Inr (line, (w', log))))"

text \<open>
  \<open>getAppMainExecutable\<close> and \<open>getBundleID\<close> (lines 152 to 165): the manifest is loaded
  and indexed; a missing key raises \<open>KeyError\<close>, a manifest that is no dictionary
  \<open>TypeError\<close>.
\<close>

definition manifest_key :: "'w os \<Rightarrow> string \<Rightarrow> string \<Rightarrow> 'w st \<Rightarrow> error + string \<times> 'w st" where
  "manifest_key os key app_base s =
     (case os_load_plist os (app_base @ ''/Contents/Info.plist'') (fst s) of
        Inl e \<Rightarrow> Inl e
      | Inr PlistOther \<Rightarrow> Inl TypeError
      | Inr (PlistDict app_info) \<Rightarrow>
          (case app_info key of None \<Rightarrow> Inl KeyError | Some v \<Rightarrow> Inr (v, s)))"

definition getAppMainExecutable :: "'w os \<Rightarrow> string \<Rightarrow> 'w st \<Rightarrow> error + string \<times> 'w st" where
  "getAppMainExecutable os app_base = manifest_key os ''CFBundleExecutable'' app_base"

definition getBundleID :: "'w os \<Rightarrow> string \<Rightarrow> 'w st \<Rightarrow> error + string \<times> 'w st" where
  "getBundleID os app_base = manifest_key os ''CFBundleIdentifier'' app_base"

text \<open>Pieces of the command lines: quoting, \<open>None\<close> in an f-string, \<open>split("/")[-1]\<close>.\<close>

definition quoted :: "string \<Rightarrow> string" where
  "quoted s = CHR 0x27 # s @ [CHR 0x27]"

definition dquoted :: "string \<Rightarrow> string" where
  "dquoted s = CHR 0x22 # s @ [CHR 0x22]"

definition fmt :: "string option \<Rightarrow> string" where
  "fmt v = (case v of None \<Rightarrow> ''None'' | Some s \<Rightarrow> s)"

definition last_segment :: "string \<Rightarrow> string" where
  "last_segment s = rev (takeWhile (\<lambda>c. c \<noteq> CHR ''/'') (rev s))"

text \<open>
  The local variables of \<open>main\<close> at line 358, for one app the user approved. Flags that
  the code tests with \<open>is None\<close> or for truth are values; names that it prints into
  command lines are strings or \<open>None\<close>; \<open>componentApp\<close> is a list or \<open>None\<close>.
  \<open>bundle_identifier\<close> is \<open>local_app["CFBundleIdentifier"]\<close>, \<open>current_parent\<close> the
  directory of the script, \<open>isDevHome\<close> the environment variable \<open>InjectLibDev\<close>.
\<close>

record job =
  package_name :: pyval
  app_base_locate :: string
  bridge_file :: "string option"
  inject_file :: "string option"
  extra_shell :: "string option"
  need_copy_to_app_dir :: pyval
  deep_sign_app :: pyval
  disable_library_validate :: pyval
  entitlements :: "string option"
  no_sign_target :: pyval
  no_deep :: pyval
  tccutil :: pyval
  auto_handle_helper :: pyval
  helper_file :: pyval
  componentApp :: "string list option"
  SMExtra :: "string option"
  keygen :: pyval
  bundle_identifier :: string
  current_parent :: string
  isDevHome :: "string option"

text \<open>\<open>handle_keygen\<close> (lines 92 to 97).\<close>

definition handle_keygen :: "'w os \<Rightarrow> string \<Rightarrow> 'w st \<Rightarrow> error + unit \<times> 'w st" where
  "handle_keygen os bundleIdentifier =
     (let user_dir = os_home os;
          username = last_segment user_dir
      in do_all
           [ignore (run_cmd os (Shell ''chmod +x ./tool/KeygenStarter'')),
            ignore (run_cmd os (Shell (''./tool/KeygenStarter '' @ quoted bundleIdentifier @
                                      '' '' @ quoted username)))])"

text \<open>\<open>handle_helper\<close> (lines 99 to 149).\<close>

definition handle_helper ::
  "'w os \<Rightarrow> string \<Rightarrow> string \<Rightarrow> string list option \<Rightarrow> string option \<Rightarrow> string \<Rightarrow>
   'w st \<Rightarrow> error + unit \<times> 'w st" where
  "handle_helper os app_base target_helper component_apps extra bridge_path =
     (let helper_name = last_segment target_helper;
          target = ''/Library/LaunchDaemons/'' @ helper_name @ ''.plist'';
          src_info = [app_base @ ''/Contents/Info.plist''] @
            (case component_apps of
               None \<Rightarrow> []
             | Some apps \<Rightarrow> map (\<lambda>i. app_base @ i @ ''/Contents/Info.plist'') apps)
      in do_all
           [ignore (run_cmd os (Shell ''chmod +x ./tool/GenShineImpactStarter'')),
            ignore (run_cmd os (Shell (''./tool/GenShineImpactStarter '' @ quoted target_helper @
                      '' '' @ (case extra of None \<Rightarrow> [] | Some x \<Rightarrow> x)))),
            ignore (run_cmd os (Shell (''./tool/insert_dylib '' @
                      quoted (bridge_path @ ''91QiuChenly.dylib'') @ '' '' @
                      quoted target_helper @ '' '' @ quoted target_helper))),
            bind_m (path_exists_m os target) (\<lambda>found.
              when_m found
                (do_all
                   [ignore (run_cmd os (Shell (''sudo /bin/launchctl unload '' @ target))),
                    ignore (run_cmd os (Shell (''sudo /usr/bin/killall -u root -9 '' @ helper_name))),
                    ignore (run_cmd os (Shell (''sudo /bin/rm '' @ target))),
                    ignore (run_cmd os (Shell (''sudo /bin/rm /Library/PrivilegedHelperTools/'' @
                                              helper_name)))])),
            ignore (run_cmd os (Shell (''sudo xattr -c '' @ quoted app_base))),
            for_m (\<lambda>i. run_cmd os
                     (Argv [''/usr/libexec/PlistBuddy'', ''-c'',
                            ''Set :SMPrivilegedExecutables:'' @ helper_name @ '' '' @
                              quoted (''identifier '' @ [CHR 0x5C, CHR 0x22] @ helper_name @
                                      [CHR 0x5C, CHR 0x22]),
                            i]))
              src_info,
            ignore (run_cmd os (Shell (''/usr/bin/codesign -f -s - --all-architectures --deep '' @
                                      dquoted target_helper))),
            ignore (run_cmd os (Shell (''/usr/bin/codesign -f -s - --all-architectures --deep '' @
                                      dquoted app_base)))])"

text \<open>The injection target and its backup (lines 373 and 374).\<close>

definition dest_of :: "job \<Rightarrow> string" where
  "dest_of j = app_base_locate j @ fmt (bridge_file j) @ fmt (inject_file j)"

definition backup_of :: "job \<Rightarrow> string" where
  "backup_of j = dest_of j @ ''_backup''"

definition copy_command :: "string \<Rightarrow> string \<Rightarrow> command" where
  "copy_command dest backup = Shell (''sudo cp '' @ quoted dest @ '' '' @ quoted backup)"

text \<open>Lines 358 to 365: announce, open the bundle up, stop the running app.\<close>

definition prepare :: "'w os \<Rightarrow> job \<Rightarrow> 'w st \<Rightarrow> error + unit \<times> 'w st" where
  "prepare os j =
     do_all
       [print_msg (MsgStart (package_name j)),
        ignore (run_cmd os (Argv [''sudo'', ''chmod'', ''-R'', ''777'', app_base_locate j])),
        ignore (run_cmd os (Argv [''sudo'', ''xattr'', ''-cr'', app_base_locate j])),
        bind_m (getAppMainExecutable os (app_base_locate j)) (\<lambda>exe.
          ignore (run_cmd os (Argv [''sudo'', ''pkill'', ''-f'', exe])))]"

text \<open>
  Lines 376 to 383: create the backup, or ask whether to reuse the one that exists. The
  answer is \<open>read_input("").strip().lower()\<close>.
\<close>

definition backup_stage ::
  "str_methods \<Rightarrow> 'w os \<Rightarrow> string \<Rightarrow> string \<Rightarrow> 'w st \<Rightarrow> error + unit \<times> 'w st" where
  "backup_stage t os dest backup =
     bind_m (path_exists_m os backup) (\<lambda>found.
       if found then
         seq_m (print_msg MsgBackupExists)
           (bind_m (input_m os) (\<lambda>line.
              let action = str_lower t (str_strip t (read_input t line)) in
              if action = ''n''
              then do_all [remove_m os backup, ignore (run_cmd os (copy_command dest backup))]
              else unit_m ()))
       else ignore (run_cmd os (copy_command dest backup)))"

text \<open>
  Lines 385 to 423: the command lines of the injector. Each one names the library, the
  file to read and the file to write.
\<close>

definition insert_command :: "string \<Rightarrow> string \<Rightarrow> string \<Rightarrow> string \<Rightarrow> string" where
  "insert_command root library source target =
     ''sudo '' @ root @ ''/tool/insert_dylib '' @ library @ '' '' @ quoted source @ '' '' @
     quoted target"

definition dev_home :: "job \<Rightarrow> bool" where
  "dev_home j = (case isDevHome j of None \<Rightarrow> False | Some v \<Rightarrow> v \<noteq> [])"

text \<open>
  With \<open>needCopyToAppDir\<close> the library is first copied (or linked, for a developer's
  own build) into the bundle, and that copy is the one injected.
\<close>

definition destination_dylib :: "job \<Rightarrow> string" where
  "destination_dylib j = quoted (app_base_locate j @ fmt (bridge_file j) @ ''91QiuChenly.dylib'')"

definition copy_library_command :: "job \<Rightarrow> command" where
  "copy_library_command j =
     (let source_dylib = (if dev_home j then fmt (isDevHome j)
                          else current_parent j @ ''/tool/91QiuChenly.dylib'');
          command = (if dev_home j then ''ln -f -s'' else ''cp'')
      in Shell (command @ '' '' @ source_dylib @ '' '' @ destination_dylib j))"

text \<open>The executables of the component apps (lines 409 to 415); reading a manifest can raise.\<close>

definition component_targets :: "'w os \<Rightarrow> job \<Rightarrow> 'w st \<Rightarrow> error + string list \<times> 'w st" where
  "component_targets os j =
     (case componentApp j of
        None \<Rightarrow> unit_m []
      | Some apps \<Rightarrow>
          map_m (\<lambda>i. bind_m (getAppMainExecutable os (app_base_locate j @ i))
                    (\<lambda>exe. unit_m (app_base_locate j @ i @ ''/Contents/MacOS/'' @ exe)))
            apps)"

definition library_of :: "job \<Rightarrow> string" where
  "library_of j =
     (if truthy (need_copy_to_app_dir j) then destination_dylib j
      else quoted (current_parent j @ ''/tool/91QiuChenly.dylib''))"

definition insert_stage :: "'w os \<Rightarrow> job \<Rightarrow> string \<Rightarrow> string \<Rightarrow> 'w st \<Rightarrow> error + unit \<times> 'w st" where
  "insert_stage os j dest backup =
     seq_m (ignore (run_cmd os (Shell (''chmod +x '' @ current_parent j @ ''/tool/insert_dylib''))))
       (if truthy (need_copy_to_app_dir j) then
          seq_m (ignore (run_cmd os (copy_library_command j)))
            (bind_m (component_targets os j)
               (\<lambda>components.
                  for_m (\<lambda>it. run_cmd os
                           (Shell (insert_command (current_parent j) (destination_dylib j) backup it)))
                    ([dest] @ components)))
        else ignore (run_cmd os
               (Shell (insert_command (current_parent j)
                         (quoted (current_parent j @ ''/tool/91QiuChenly.dylib'')) backup dest))))"

text \<open>Lines 425 to 454: signing, library validation, the extra script, the attributes.\<close>

definition sign_prefix :: "job \<Rightarrow> string" where
  "sign_prefix j =
     ''/usr/bin/codesign -f -s - --timestamp=none --all-architectures'' @
     (if no_deep j = PyNone then '' --deep'' else []) @
     (case entitlements j of
        None \<Rightarrow> []
      | Some e \<Rightarrow> '' --entitlements '' @ current_parent j @ ''/tool/'' @ e)"

definition sign_stage :: "'w os \<Rightarrow> job \<Rightarrow> string \<Rightarrow> 'w st \<Rightarrow> error + unit \<times> 'w st" where
  "sign_stage os j dest =
     do_all
       [when_m (no_deep j = PyNone) (print_msg MsgNeedDeepSign),
        when_m (no_sign_target j = PyNone)
          (do_all [print_msg MsgSigning,
                   ignore (run_cmd os (Shell (sign_prefix j @ '' '' @ quoted dest)))]),
        when_m (disable_library_validate j \<noteq> PyNone)
          (ignore (run_cmd os (Shell
             (''sudo defaults write /Library/Preferences/'' @
              ''com.apple.security.libraryvalidation.plist DisableLibraryValidation -bool true'')))),
        (case extra_shell j of
           None \<Rightarrow> unit_m ()
         | Some script \<Rightarrow>
             ignore (run_cmd os (Shell (''sudo sh '' @ current_parent j @ ''/tool/'' @ script)))),
        when_m (truthy (deep_sign_app j))
          (ignore (run_cmd os (Shell (sign_prefix j @ '' '' @ quoted (app_base_locate j))))),
        ignore (run_cmd os (Shell (''sudo xattr -cr '' @ quoted dest)))]"

text \<open>
  Lines 455 to 470: the helpers. A value that is no list is taken as the one helper, and
  printed into the path as an f-string prints it.
\<close>

fun helper_list :: "pyval \<Rightarrow> string list" where
  "helper_list (PyList helpers) = helpers"
| "helper_list (PyStr helper) = [helper]"
| "helper_list (PyBool b) = [if b then ''True'' else ''False'']"
| "helper_list PyNone = [''None'']"

definition helper_stage :: "'w os \<Rightarrow> job \<Rightarrow> 'w st \<Rightarrow> error + unit \<times> 'w st" where
  "helper_stage os j =
     (if truthy (auto_handle_helper j) \<and> truthy (helper_file j) then
        for_m (\<lambda>helper.
                 handle_helper os (app_base_locate j) (app_base_locate j @ helper)
                   (componentApp j) (SMExtra j) (app_base_locate j @ fmt (bridge_file j)))
          (helper_list (helper_file j))
      else unit_m ())"

text \<open>Lines 471 to 488: the privacy permissions. First the body of the loop over the identifiers.\<close>

definition reset_permissions :: "'w os \<Rightarrow> pyval \<Rightarrow> string \<Rightarrow> 'w st \<Rightarrow> error + unit \<times> 'w st" where
  "reset_permissions os tcc ident =
     (case tcc of
        PyStr service \<Rightarrow>
          ignore (run_cmd os (Shell (''tccutil reset '' @ service @ '' '' @ ident)))
      | PyList services \<Rightarrow>
          for_m (\<lambda>i. run_cmd os (Shell (''tccutil reset '' @ i @ '' '' @ ident))) services
      | _ \<Rightarrow> unit_m ())"

definition tcc_stage :: "'w os \<Rightarrow> job \<Rightarrow> 'w st \<Rightarrow> error + unit \<times> 'w st" where
  "tcc_stage os j =
     (if tccutil j \<noteq> PyNone \<and> truthy (tccutil j) then
        bind_m
          (case componentApp j of
             None \<Rightarrow> unit_m []
           | Some apps \<Rightarrow> map_m (\<lambda>i. getBundleID os (app_base_locate j @ i)) apps)
          (\<lambda>components.
             for_m (reset_permissions os (tccutil j)) ([bundle_identifier j] @ components))
      else unit_m ())"

text \<open>
  The sequencer for one approved app, from line 358 to the end of the loop body. With
  \<open>keygen\<close> set the app is registered and the loop goes on to the next app.
\<close>

definition inject :: "str_methods \<Rightarrow> 'w os \<Rightarrow> job \<Rightarrow> 'w st \<Rightarrow> error + unit \<times> 'w st" where
  "inject t os j =
     seq_m (prepare os j)
       (if keygen j \<noteq> PyNone
        then seq_m (print_msg MsgRegistering) (handle_keygen os (bundle_identifier j))
        else do_all
               [backup_stage t os (dest_of j) (backup_of j),
                insert_stage os j (dest_of j) (backup_of j),
                sign_stage os j (dest_of j),
                helper_stage os j,
                tcc_stage os j,
                print_msg MsgFinished])"

text \<open>
  Two operating systems differ only in the exit statuses of the commands when they
  agree on everything else: on the world a command leaves behind, and on every other
  operation.
\<close>

definition same_but_status :: "'w os \<Rightarrow> 'w os \<Rightarrow> bool" where
  "same_but_status a b \<longleftrightarrow>
     (\<forall>c w. snd (os_run a c w) = snd (os_run b c w)) \<and>
     os_exists a = os_exists b \<and> os_remove a = os_remove b \<and> os_input a = os_input b \<and>
     os_load_plist a = os_load_plist b \<and> os_home a = os_home b"

text \<open>
  An operating system to run the sequencer on. Its world is the list of lines the user
  will still type; every command exits with the given status; one backup exists.
\<close>

definition demo_os :: "int \<Rightarrow> string list os" where
  "demo_os status =
     \<lparr> os_run = (\<lambda>c w. (status, w)),
       os_exists = (\<lambda>p w. p = ''/Applications/A.app/Contents/MacOS/alpha_backup''),
       os_remove = (\<lambda>p w. Inr w),
       os_input = (\<lambda>w. case w of [] \<Rightarrow> Inl EOFError | line # rest \<Rightarrow> Inr (line, rest)),
       os_load_plist = (\<lambda>p w.
          if p = ''/Applications/A.app/Contents/Info.plist''
          then Inr (PlistDict [''CFBundleExecutable'' \<mapsto> ''alpha'',
                 ''CFBundleIdentifier'' \<mapsto> ''com.a''])
          else Inl OSError),
       os_home = ''/Users/me'' \<rparr>"

definition demo_job :: job where
  "demo_job =
     \<lparr> package_name = PyStr ''com.a'', app_base_locate = ''/Applications/A.app'',
       bridge_file = Some ''/Contents/MacOS/'', inject_file = Some ''alpha'',
       extra_shell = None, need_copy_to_app_dir = PyNone, deep_sign_app = PyNone,
       disable_library_validate = PyNone, entitlements = None, no_sign_target = PyNone,
       no_deep = PyBool True, tccutil = PyStr ''All'', auto_handle_helper = PyNone,
       helper_file = PyNone, componentApp = None, SMExtra = None, keygen = PyNone,
       bundle_identifier = ''com.a'', current_parent = ''/opt/inject'', isDevHome = None \<rparr>"

section \<open>Properties of the matcher\<close>

lemma starts_with_iff: "starts_with n h \<longleftrightarrow> (\<exists>suf. h = n @ suf)"
  by (induction n h rule: starts_with.induct) auto

lemma py_in_iff: "py_in n h \<longleftrightarrow> (\<exists>pre suf. h = pre @ n @ suf)"
proof (induction h)
  case Nil
  then show ?case by auto
next
  case (Cons c cs)
  have "(\<exists>pre suf. c # cs = pre @ n @ suf) \<longleftrightarrow>
        (\<exists>suf. c # cs = n @ suf) \<or> (\<exists>pre suf. cs = pre @ n @ suf)"
  proof
    assume "\<exists>pre suf. c # cs = pre @ n @ suf"
    then obtain pre suf where eq: "c # cs = pre @ n @ suf" by blast
    show "(\<exists>suf. c # cs = n @ suf) \<or> (\<exists>pre suf. cs = pre @ n @ suf)"
    proof (cases pre)
      case Nil
      with eq show ?thesis by auto
    next
      case (Cons p ps)
      with eq have "cs = ps @ n @ suf" by simp
      then show ?thesis by blast
    qed
  next
    assume "(\<exists>suf. c # cs = n @ suf) \<or> (\<exists>pre suf. cs = pre @ n @ suf)"
    then show "\<exists>pre suf. c # cs = pre @ n @ suf"
    proof
      assume "\<exists>suf. c # cs = n @ suf"
      then obtain suf where "c # cs = [] @ n @ suf" by auto
      then show ?thesis by blast
    next
      assume "\<exists>pre suf. cs = pre @ n @ suf"
      then obtain pre suf where "c # cs = (c # pre) @ n @ suf" by auto
      then show ?thesis by blast
    qed
  qed
  with Cons show ?case by (simp add: starts_with_iff)
qed

lemma py_in_lower:
  "py_in (str_lower t keyword) (str_lower t s) \<longleftrightarrow> ci_substring t keyword s"
  by (simp add: py_in_iff ci_substring_def)

lemma any_name_matches_iff:
  "any_name_matches t keyword names \<longleftrightarrow> (\<exists>name \<in> set names. ci_substring t keyword name)"
  by (induction names) (auto simp: py_in_lower)

lemma bundle_name_matches_iff:
  "bundle_name_matches t keyword pn install_apps \<longleftrightarrow>
     (\<exists>installed \<in> set install_apps.
        CFBundleIdentifier installed = pn \<and> ci_substring t keyword (CFBundleName installed))"
  by (induction install_apps) (auto simp: py_in_lower)

lemma search_loop_filter:
  "search_loop t acc apps install_apps keyword =
     acc @ filter (appended t keyword install_apps) apps"
proof (induction apps arbitrary: acc)
  case Nil
  then show ?case by simp
next
  case (Cons app rest)
  show ?case
    by (cases "dict_get app ''packageName''")
       (auto simp: Cons.IH appended_def Let_def)
qed

text \<open>
  The result is always the catalog filtered by what the loop body decides, so a
  subsequence of the catalog in catalog order.
\<close>

lemma search_apps_filter:
  "search_apps t catalog install_apps keyword = filter (appended t keyword install_apps) catalog
   \<and> subseq (search_apps t catalog install_apps keyword) catalog"
  by (simp add: search_apps_def search_loop_filter)

text \<open>For an entry with a single package name the loop body decides as the specification says.\<close>

lemma appended_single_name:
  "dict_get app ''packageName'' = PyStr s \<Longrightarrow>
   appended t keyword install_apps app \<longleftrightarrow> entry_matches t keyword install_apps app"
  by (simp add: appended_def entry_matches_def bundle_name_matches_iff py_in_lower)

lemma search_apps_single_names:
  assumes "\<forall>app \<in> set catalog. \<exists>s. dict_get app ''packageName'' = PyStr s"
  shows "search_apps t catalog install_apps keyword =
     filter (entry_matches t keyword install_apps) catalog"
proof -
  have "filter (appended t keyword install_apps) catalog =
      filter (entry_matches t keyword install_apps) catalog"
    using assms by (intro filter_cong) (auto simp: appended_single_name)
  then show ?thesis
    by (simp add: search_apps_def search_loop_filter)
qed

text \<open>
  For an entry that lists its names, the loop compares the identifier of each installed
  app with the whole list (line 28). No identifier that is a string or \<open>None\<close> equals a
  list, so the entry is found by its names and never by a display name.
\<close>

lemma appended_listed_names:
  assumes "dict_get app ''packageName'' = PyList names"
    and "\<forall>installed \<in> set install_apps. \<forall>ids. CFBundleIdentifier installed \<noteq> PyList ids"
  shows "appended t keyword install_apps app \<longleftrightarrow>
     (\<exists>name \<in> set names. ci_substring t keyword name)"
  using assms
  by (auto simp: appended_def any_name_matches_iff bundle_name_matches_iff)

text \<open>
  C1. The claim holds of the specification and fails on the code for an entry that lists
  its names. The catalog holds one entry, with the list \<open>["com.a"]\<close> as \<open>packageName\<close>;
  the app \<open>com.a\<close> is installed with the display name \<open>Alpha\<close>; the keyword is \<open>ALP\<close>.
  The entry matches as the claim words it, and \<open>search_apps\<close> returns the empty list.
  The same entry with the string \<open>"com.a"\<close> as \<open>packageName\<close> is found.
\<close>

theorem search_apps_misses_listed_entry:
  "search_apps demo_str [[''packageName'' \<mapsto> PyList [''com.a'']]]
     [\<lparr>appBaseLocate = ''/Applications/A.app'', CFBundleIdentifier = PyStr ''com.a'',
       CFBundleVersion = ''1'', CFBundleShortVersionString = ''1.0'',
       CFBundleName = ''Alpha'', CFBundleExecutable = ''Alpha''\<rparr>] ''ALP'' = []
   \<and> entry_matches demo_str ''ALP''
     [\<lparr>appBaseLocate = ''/Applications/A.app'', CFBundleIdentifier = PyStr ''com.a'',
       CFBundleVersion = ''1'', CFBundleShortVersionString = ''1.0'',
       CFBundleName = ''Alpha'', CFBundleExecutable = ''Alpha''\<rparr>]
     [''packageName'' \<mapsto> PyList [''com.a'']]
   \<and> search_apps demo_str [[''packageName'' \<mapsto> PyStr ''com.a'']]
     [\<lparr>appBaseLocate = ''/Applications/A.app'', CFBundleIdentifier = PyStr ''com.a'',
       CFBundleVersion = ''1'', CFBundleShortVersionString = ''1.0'',
       CFBundleName = ''Alpha'', CFBundleExecutable = ''Alpha''\<rparr>] ''ALP'' =
     [[''packageName'' \<mapsto> PyStr ''com.a'']]"
proof -
  have lowered: "str_lower demo_str ''ALP'' = ''alp''" "str_lower demo_str ''Alpha'' = ''alpha''"
    "str_lower demo_str ''com.a'' = ''com.a''"
    by (simp_all add: demo_str_def sample_lower_def sample_upper_def sample_lower_case_def)
  have "py_in (str_lower demo_str ''ALP'') (str_lower demo_str ''Alpha'')"
    by (simp add: lowered)
  then have found: "ci_substring demo_str ''ALP'' ''Alpha''"
    by (simp only: py_in_lower)
  show ?thesis
    by (simp add: search_apps_def dict_get_def lowered entry_matches_def found)
qed

lemma code_listed_iff: "code_listed v codes \<longleftrightarrow> v \<in> set codes"
  by (induction codes) auto

text \<open>
  C2. \<open>check_compatible\<close> is true exactly when both allow-lists are absent, or the
  installed version is an element of the version allow-list, or the installed sub-version
  is an element of the sub-version allow-list. It is a function of its four arguments
  alone.
\<close>

theorem check_compatible_iff:
  "check_compatible cvc cvs v sv \<longleftrightarrow>
     (cvc = None \<and> cvs = None) \<or>
     (\<exists>codes. cvc = Some codes \<and> v \<in> set codes) \<or>
     (\<exists>codes. cvs = Some codes \<and> sv \<in> set codes)"
  by (cases cvc; cases cvs) (auto simp: check_compatible_def code_listed_iff)

section \<open>Properties of the scanner\<close>

lemma path_join_entry:
  "entry_name app \<Longrightarrow> base_dir \<noteq> [] \<Longrightarrow> last base_dir \<noteq> CHR ''/'' \<Longrightarrow>
     manifest_path base_dir app = base_dir @ ''/'' @ app @ ''/Contents/Info.plist''"
proof -
  assume name: "entry_name app" and base: "base_dir \<noteq> []" "last base_dir \<noteq> CHR ''/''"
  from name obtain c cs where app: "app = c # cs" and c: "c \<noteq> CHR ''/''"
    by (cases app) (auto simp: entry_name_def)
  from name have "last app \<in> set app"
    by (simp add: entry_name_def last_in_set)
  with name have "last app \<noteq> CHR ''/''"
    unfolding entry_name_def by metis
  with name have end_ok: "last (base_dir @ ''/'' @ app) \<noteq> CHR ''/''"
    by (simp add: entry_name_def)
  have first: "join2 base_dir app = base_dir @ ''/'' @ app"
    using base c by (simp add: join2_def app)
  have second: "join2 (base_dir @ ''/'' @ app) ''Contents'' = base_dir @ ''/'' @ app @ ''/Contents''"
    using end_ok by (simp add: join2_def)
  have third: "join2 (base_dir @ ''/'' @ app @ ''/Contents'') ''Info.plist'' =
      base_dir @ ''/'' @ app @ ''/Contents/Info.plist''"
    by (simp add: join2_def)
  show ?thesis
    by (simp only: manifest_path_def path_join_def foldl.simps first second third)
qed

lemma scan_dir_map_filter:
  "scan_dir fs base_dir acc lst = acc @ List.map_filter (bundle_record fs base_dir) lst"
proof (induction lst arbitrary: acc)
  case Nil
  then show ?case by simp
next
  case (Cons app lst)
  show ?case
    by (simp add: Cons.IH bundle_record_def manifest_of_def
          manifest_path_def parse_app_info_def Let_def
        split: sum.splits plist.splits)
qed

lemma scan_roots_concat:
  "\<forall>base_dir \<in> set roots. path_exists fs base_dir \<longrightarrow> listable fs base_dir \<Longrightarrow>
   scan_roots fs acc roots =
     Inr (acc @ concat (map (\<lambda>base_dir.
            List.map_filter (bundle_record fs base_dir) (entries_of fs base_dir))
          (filter (path_exists fs) roots)))"
proof (induction roots arbitrary: acc)
  case Nil
  then show ?case by simp
next
  case (Cons base_dir rest)
  then show ?case
    by (auto simp: scan_dir_map_filter listable_def entries_of_def split: sum.splits)
qed

lemma scan_roots_raises:
  "\<exists>base_dir \<in> set roots. path_exists fs base_dir \<and> \<not> listable fs base_dir \<Longrightarrow>
   \<exists>e. scan_roots fs acc roots = Inl e"
proof (induction roots arbitrary: acc)
  case Nil
  then show ?case by simp
next
  case (Cons base_dir rest)
  show ?case
  proof (cases "path_exists fs base_dir \<and> \<not> listable fs base_dir")
    case True
    then show ?thesis
      by (auto simp: listable_def split: sum.splits)
  next
    case False
    with Cons.prems have "\<exists>base_dir \<in> set rest. path_exists fs base_dir \<and> \<not> listable fs base_dir"
      by auto
    from Cons.IH [OF this] show ?thesis
      by (auto split: sum.splits)
  qed
qed

text \<open>
  C5, as the claim states it, fails: the scan does not always run to completion. The
  listing of a root stands outside the \<open>try\<close> (line 57). Below, \<open>/Applications\<close> holds a
  bundle with a readable, well-formed manifest, and \<open>/Applications/Setapp\<close> exists and
  cannot be listed: the scan raises, and the record of the bundle is lost with it.
\<close>

theorem scan_apps_raises_on_unlistable_root:
  "scan_apps blocked_fs = Inl OSError
   \<and> path_exists blocked_fs ''/Applications/A.app/Contents/Info.plist''
   \<and> load_plist blocked_fs ''/Applications/A.app/Contents/Info.plist'' = Inr (PlistDict demo_manifest)
   \<and> listdir blocked_fs ''/Applications'' = Inr [''A.app'', ''B.app'', ''notes.txt'', ''C.app'']"
  by (simp add: scan_apps_def base_dirs_def blocked_fs_def demo_fs_def parse_app_info_def
        path_join_def join2_def)

text \<open>
  C5, amended. When every scanned root that exists can be listed, \<open>scan_apps\<close> returns
  without raising, and its result holds, root by root and entry by entry in listing
  order, one record for each entry whose \<open>Contents/Info.plist\<close> exists and loads as a
  dictionary; an entry whose manifest is missing, unreadable or malformed contributes
  nothing. The record of an entry carries the path of the bundle and the identifier,
  the two versions and the executable name of its manifest. When a root exists and
  cannot be listed, the scan raises.
\<close>

theorem scan_apps_one_record_per_manifest:
  "((\<forall>base_dir \<in> set base_dirs. path_exists fs base_dir \<longrightarrow> listable fs base_dir) \<longrightarrow>
      scan_apps fs =
        Inr (concat (map (\<lambda>base_dir.
               List.map_filter (bundle_record fs base_dir) (entries_of fs base_dir))
             (filter (path_exists fs) base_dirs))))
   \<and> (bundle_record fs base_dir app = None \<longleftrightarrow>
        \<not> path_exists fs (path_join base_dir [app, ''Contents'', ''Info.plist'']) \<or>
        (\<forall>m. load_plist fs (path_join base_dir [app, ''Contents'', ''Info.plist'']) \<noteq>
               Inr (PlistDict m)))
   \<and> (bundle_record fs base_dir app = Some info \<longrightarrow>
        (\<exists>m. load_plist fs (path_join base_dir [app, ''Contents'', ''Info.plist'']) =
               Inr (PlistDict m) \<and>
             appBaseLocate info = base_dir @ ''/'' @ app \<and>
             CFBundleIdentifier info =
               (case m ''CFBundleIdentifier'' of None \<Rightarrow> PyNone | Some v \<Rightarrow> PyStr v) \<and>
             CFBundleVersion info = (case m ''CFBundleVersion'' of None \<Rightarrow> [] | Some v \<Rightarrow> v) \<and>
             CFBundleShortVersionString info =
               (case m ''CFBundleShortVersionString'' of None \<Rightarrow> [] | Some v \<Rightarrow> v) \<and>
             CFBundleExecutable info =
               (case m ''CFBundleExecutable'' of None \<Rightarrow> [] | Some v \<Rightarrow> v)))
   \<and> ((\<exists>base_dir \<in> set base_dirs. path_exists fs base_dir \<and> \<not> listable fs base_dir) \<longrightarrow>
        (\<exists>e. scan_apps fs = Inl e))"
proof -
  have complete: "(\<forall>base_dir \<in> set base_dirs. path_exists fs base_dir \<longrightarrow> listable fs base_dir) \<longrightarrow>
      scan_apps fs =
        Inr (concat (map (\<lambda>base_dir.
               List.map_filter (bundle_record fs base_dir) (entries_of fs base_dir))
             (filter (path_exists fs) base_dirs)))"
  proof
    assume "\<forall>base_dir \<in> set base_dirs. path_exists fs base_dir \<longrightarrow> listable fs base_dir"
    from scan_roots_concat [OF this, of "[]"]
    show "scan_apps fs =
        Inr (concat (map (\<lambda>base_dir.
               List.map_filter (bundle_record fs base_dir) (entries_of fs base_dir))
             (filter (path_exists fs) base_dirs)))"
      by (simp add: scan_apps_def)
  qed
  have skipped_entry: "bundle_record fs base_dir app = None \<longleftrightarrow>
        \<not> path_exists fs (path_join base_dir [app, ''Contents'', ''Info.plist'']) \<or>
        (\<forall>m. load_plist fs (path_join base_dir [app, ''Contents'', ''Info.plist'']) \<noteq>
               Inr (PlistDict m))"
    by (auto simp: bundle_record_def manifest_of_def manifest_path_def
          split: sum.splits plist.splits)
  have recorded: "bundle_record fs base_dir app = Some info \<longrightarrow>
        (\<exists>m. load_plist fs (path_join base_dir [app, ''Contents'', ''Info.plist'']) =
               Inr (PlistDict m) \<and>
             appBaseLocate info = base_dir @ ''/'' @ app \<and>
             CFBundleIdentifier info =
               (case m ''CFBundleIdentifier'' of None \<Rightarrow> PyNone | Some v \<Rightarrow> PyStr v) \<and>
             CFBundleVersion info = (case m ''CFBundleVersion'' of None \<Rightarrow> [] | Some v \<Rightarrow> v) \<and>
             CFBundleShortVersionString info =
               (case m ''CFBundleShortVersionString'' of None \<Rightarrow> [] | Some v \<Rightarrow> v) \<and>
             CFBundleExecutable info =
               (case m ''CFBundleExecutable'' of None \<Rightarrow> [] | Some v \<Rightarrow> v))"
    by (auto simp: bundle_record_def manifest_of_def manifest_path_def app_info_of_def
          get_or_empty_def split: sum.splits plist.splits if_splits)
  have raises: "(\<exists>base_dir \<in> set base_dirs. path_exists fs base_dir \<and> \<not> listable fs base_dir) \<longrightarrow>
        (\<exists>e. scan_apps fs = Inl e)"
    using scan_roots_raises [of base_dirs fs "[]"] by (simp add: scan_apps_def)
  from complete skipped_entry recorded raises show ?thesis
    by (intro conjI)
qed

theorem scan_apps_one_record_per_manifest_witness:
  "scan_apps demo_fs =
     Inr [\<lparr>appBaseLocate = ''/Applications/A.app'', CFBundleIdentifier = PyStr ''com.a'',
           CFBundleVersion = [], CFBundleShortVersionString = [],
           CFBundleName = ''alpha-bin'', CFBundleExecutable = ''alpha-bin''\<rparr>]
   \<and> bundle_record demo_fs ''/Applications'' ''B.app'' = None
   \<and> bundle_record demo_fs ''/Applications'' ''notes.txt'' = None
   \<and> bundle_record demo_fs ''/Applications'' ''C.app'' = None
   \<and> (\<exists>e. scan_apps blocked_fs = Inl e)"
proof -
  have roots: "\<forall>base_dir \<in> set base_dirs. path_exists demo_fs base_dir \<longrightarrow> listable demo_fs base_dir"
    by (simp add: base_dirs_def demo_fs_def listable_def)
  have blocked: "\<exists>base_dir \<in> set base_dirs.
      path_exists blocked_fs base_dir \<and> \<not> listable blocked_fs base_dir"
    by (simp add: base_dirs_def blocked_fs_def demo_fs_def listable_def)
  have paths: "path_join ''/Applications'' [''B.app'', ''Contents'', ''Info.plist''] =
      ''/Applications/B.app/Contents/Info.plist''"
    "path_join ''/Applications'' [''notes.txt'', ''Contents'', ''Info.plist''] =
      ''/Applications/notes.txt/Contents/Info.plist''"
    "path_join ''/Applications'' [''C.app'', ''Contents'', ''Info.plist''] =
      ''/Applications/C.app/Contents/Info.plist''"
    by (simp_all add: path_join_def join2_def)
  have bad: "\<forall>m. load_plist demo_fs ''/Applications/B.app/Contents/Info.plist'' \<noteq> Inr (PlistDict m)"
    "\<not> path_exists demo_fs ''/Applications/notes.txt/Contents/Info.plist''"
    "\<forall>m. load_plist demo_fs ''/Applications/C.app/Contents/Info.plist'' \<noteq> Inr (PlistDict m)"
    by (simp_all add: demo_fs_def)
  note scan = scan_apps_one_record_per_manifest
  from scan [where fs = demo_fs and base_dir = "''/Applications''" and app = "''B.app''"]
    scan [where fs = demo_fs and base_dir = "''/Applications''" and app = "''notes.txt''"]
    scan [where fs = demo_fs and base_dir = "''/Applications''" and app = "''C.app''"]
    scan [where fs = blocked_fs] roots blocked paths bad
  have "scan_apps demo_fs =
        Inr (concat (map (\<lambda>base_dir.
               List.map_filter (bundle_record demo_fs base_dir) (entries_of demo_fs base_dir))
             (filter (path_exists demo_fs) base_dirs)))"
    and rest: "bundle_record demo_fs ''/Applications'' ''B.app'' = None"
      "bundle_record demo_fs ''/Applications'' ''notes.txt'' = None"
      "bundle_record demo_fs ''/Applications'' ''C.app'' = None"
      "\<exists>e. scan_apps blocked_fs = Inl e"
    by simp_all
  then have "scan_apps demo_fs =
     Inr [\<lparr>appBaseLocate = ''/Applications/A.app'', CFBundleIdentifier = PyStr ''com.a'',
           CFBundleVersion = [], CFBundleShortVersionString = [],
           CFBundleName = ''alpha-bin'', CFBundleExecutable = ''alpha-bin''\<rparr>]"
    by (simp add: base_dirs_def demo_fs_def entries_of_def bundle_record_def manifest_of_def
          manifest_path_def path_join_def join2_def app_info_of_def get_or_empty_def
          demo_manifest_def)
  with rest show ?thesis by simp
qed

lemma scan_dir_invariant:
  "\<forall>info \<in> set acc. CFBundleName info = CFBundleExecutable info \<Longrightarrow>
   \<forall>info \<in> set (scan_dir fs base_dir acc lst). CFBundleName info = CFBundleExecutable info"
  by (auto simp: scan_dir_map_filter List.map_filter_def bundle_record_def app_info_of_def)

lemma scan_roots_invariant:
  "\<forall>info \<in> set acc. CFBundleName info = CFBundleExecutable info \<Longrightarrow>
   scan_roots fs acc roots = Inr apps \<Longrightarrow>
   \<forall>info \<in> set apps. CFBundleName info = CFBundleExecutable info"
proof (induction roots arbitrary: acc)
  case Nil
  then show ?case by simp
next
  case (Cons base_dir rest)
  show ?case
  proof (cases "path_exists fs base_dir")
    case False
    with Cons show ?thesis by simp
  next
    case True
    with Cons.prems(2) obtain lst where
      lst: "listdir fs base_dir = Inr lst"
      and run: "scan_roots fs (scan_dir fs base_dir acc lst) rest = Inr apps"
      by (auto split: sum.splits)
    from Cons.IH [OF scan_dir_invariant [OF Cons.prems(1)] run] show ?thesis .
  qed
qed

text \<open>
  C8. Every record that \<open>parse_app_info\<close> produces, and so every record of a scan, has
  \<open>CFBundleName\<close> equal to \<open>CFBundleExecutable\<close>: both are the manifest's
  \<open>CFBundleExecutable\<close> (the empty string when it has none), and the manifest's own
  \<open>CFBundleName\<close> has no influence on the record.
\<close>

theorem display_name_is_executable:
  "(parse_app_info fs base app_info_file = Inr info \<longrightarrow>
      CFBundleName info = CFBundleExecutable info \<and>
      (\<exists>m. load_plist fs app_info_file = Inr (PlistDict m) \<and>
           CFBundleName info = get_or_empty m ''CFBundleExecutable''))
   \<and> app_info_of base (manifest(''CFBundleName'' := name)) =
       app_info_of base manifest
   \<and> (scan_apps fs = Inr apps \<longrightarrow>
        (\<forall>installed \<in> set apps. CFBundleName installed = CFBundleExecutable installed))"
proof (intro conjI impI)
  assume "parse_app_info fs base app_info_file = Inr info"
  then obtain m where m: "load_plist fs app_info_file = Inr (PlistDict m)"
    and info: "info = app_info_of base m"
    by (auto simp: parse_app_info_def split: sum.splits plist.splits)
  from info show "CFBundleName info = CFBundleExecutable info"
    by (simp add: app_info_of_def)
  from m info show "\<exists>m. load_plist fs app_info_file = Inr (PlistDict m) \<and>
      CFBundleName info = get_or_empty m ''CFBundleExecutable''"
    by (auto simp: app_info_of_def)
next
  show "app_info_of base (manifest(''CFBundleName'' := name)) =
      app_info_of base manifest"
    by (simp add: app_info_of_def get_or_empty_def)
next
  assume "scan_apps fs = Inr apps"
  then show "\<forall>installed \<in> set apps. CFBundleName installed = CFBundleExecutable installed"
    using scan_roots_invariant [of "[]" fs base_dirs apps] by (simp add: scan_apps_def)
qed

theorem display_name_is_executable_witness:
  "parse_app_info demo_fs ''/Applications/A.app'' ''/Applications/A.app/Contents/Info.plist'' =
     Inr (app_info_of ''/Applications/A.app'' demo_manifest)
   \<and> scan_apps demo_fs = Inr [app_info_of ''/Applications/A.app'' demo_manifest]
   \<and> CFBundleName (app_info_of ''/Applications/A.app'' demo_manifest) =
       CFBundleExecutable (app_info_of ''/Applications/A.app'' demo_manifest)
   \<and> CFBundleName (app_info_of ''/Applications/A.app'' demo_manifest) = ''alpha-bin''
   \<and> demo_manifest ''CFBundleName'' = Some ''Alpha''"
proof -
  have parsed: "parse_app_info demo_fs ''/Applications/A.app''
      ''/Applications/A.app/Contents/Info.plist'' =
       Inr (app_info_of ''/Applications/A.app'' demo_manifest)"
    by (simp add: parse_app_info_def demo_fs_def)
  have scanned: "scan_apps demo_fs = Inr [app_info_of ''/Applications/A.app'' demo_manifest]"
    by (simp add: scan_apps_def base_dirs_def demo_fs_def parse_app_info_def path_join_def
          join2_def)
  have loaded: "load_plist demo_fs ''/Applications/A.app/Contents/Info.plist'' =
      Inr (PlistDict demo_manifest)"
    by (simp add: demo_fs_def)
  have exe: "get_or_empty demo_manifest ''CFBundleExecutable'' = ''alpha-bin''"
    and name: "demo_manifest ''CFBundleName'' = Some ''Alpha''"
    by (simp_all add: get_or_empty_def demo_manifest_def)
  from display_name_is_executable [where fs = demo_fs and base = "''/Applications/A.app''"
      and app_info_file = "''/Applications/A.app/Contents/Info.plist''"
      and info = "app_info_of ''/Applications/A.app'' demo_manifest"
      and apps = "[app_info_of ''/Applications/A.app'' demo_manifest]"
      and manifest = demo_manifest and name = None]
    parsed scanned loaded exe name
  show ?thesis by auto
qed

section \<open>Properties of the expansion into work items\<close>

lemma expand_names_map:
  "expand_names acc app names = acc @ map (\<lambda>name. app(''packageName'' \<mapsto> PyStr name)) names"
  by (induction names arbitrary: acc) auto

lemma browse_all_concat:
  "\<forall>app \<in> set catalog. app ''packageName'' \<noteq> None \<Longrightarrow>
   browse_all qiuchenly acc catalog =
     Inr (acc @ concat (map work_items (filter (\<lambda>app. \<not> skipped qiuchenly app) catalog)))"
proof (induction catalog arbitrary: acc)
  case Nil
  then show ?case by simp
next
  case (Cons app rest)
  then obtain v where v: "app ''packageName'' = Some v" by auto
  from Cons have rest: "\<forall>app \<in> set rest. app ''packageName'' \<noteq> None" by simp
  have step: "browse_all qiuchenly acc (app # rest) =
      (if skipped qiuchenly app then browse_all qiuchenly acc rest
       else browse_all qiuchenly (acc @ work_items app) rest)"
    by (cases v) (simp_all add: v skipped_def work_items_def dict_get_def expand_names_map)
  show ?case
    by (simp only: step Cons.IH [OF rest] filter.simps list.map concat.simps append_assoc
          if_distrib [of "\<lambda>xs. concat (map work_items xs)"] split: if_splits) simp
qed

text \<open>
  C9, as the claim states it, fails in browse-all mode: an entry with a truthy
  \<open>forQiuChenly\<close> yields no work item when \<open>/Users/qiuchenly\<close> does not exist, although
  its \<open>packageName\<close> is a string.
\<close>

theorem browse_all_skips_guarded_entry:
  "browse_all False [] [[''packageName'' \<mapsto> PyStr ''com.a'', ''forQiuChenly'' \<mapsto> PyBool True]] = Inr []
   \<and> work_items [''packageName'' \<mapsto> PyStr ''com.a'', ''forQiuChenly'' \<mapsto> PyBool True] =
       [[''packageName'' \<mapsto> PyStr ''com.a'', ''forQiuChenly'' \<mapsto> PyBool True]]"
  by (simp add: dict_get_def work_items_def)

text \<open>
  C9, amended. The work items of an entry are one copy per listed name, each with
  \<open>packageName\<close> replaced by that name and every other key as in the entry, or the entry
  itself when \<open>packageName\<close> is not a list. Keyword mode produces the work items of the
  selected entry; browse-all mode produces, in catalog order, the work items of every
  entry that the \<open>forQiuChenly\<close> guard does not skip. (\<open>packageName\<close> is a key of the
  entries: the code indexes it.)
\<close>

theorem work_items_expansion:
  "(selected_app ''packageName'' \<noteq> None \<longrightarrow>
      expand_selected selected_app = Inr (work_items selected_app))
   \<and> ((\<forall>app \<in> set catalog. app ''packageName'' \<noteq> None) \<longrightarrow>
      browse_all qiuchenly [] catalog =
        Inr (concat (map work_items (filter (\<lambda>app. \<not> skipped qiuchenly app) catalog))))
   \<and> (dict_get app ''packageName'' = PyList names \<longrightarrow>
        length (work_items app) = length names \<and>
        (\<forall>i < length names. \<forall>k.
           (work_items app ! i) ''packageName'' = Some (PyStr (names ! i)) \<and>
           (k \<noteq> ''packageName'' \<longrightarrow> (work_items app ! i) k = app k)))
   \<and> (dict_get app ''packageName'' = PyStr s \<longrightarrow> work_items app = [app])"
proof (intro conjI impI)
  assume "selected_app ''packageName'' \<noteq> None"
  then obtain v where v: "selected_app ''packageName'' = Some v" by auto
  show "expand_selected selected_app = Inr (work_items selected_app)"
    by (cases v) (simp_all add: v expand_selected_def work_items_def dict_get_def expand_names_map)
next
  assume "\<forall>app \<in> set catalog. app ''packageName'' \<noteq> None"
  from browse_all_concat [OF this, of qiuchenly "[]"]
  show "browse_all qiuchenly [] catalog =
        Inr (concat (map work_items (filter (\<lambda>app. \<not> skipped qiuchenly app) catalog)))"
    by simp
next
  assume "dict_get app ''packageName'' = PyList names"
  then show "length (work_items app) = length names"
    by (simp add: work_items_def)
next
  assume "dict_get app ''packageName'' = PyList names"
  then show "\<forall>i < length names. \<forall>k.
           (work_items app ! i) ''packageName'' = Some (PyStr (names ! i)) \<and>
           (k \<noteq> ''packageName'' \<longrightarrow> (work_items app ! i) k = app k)"
    by (simp add: work_items_def)
next
  assume "dict_get app ''packageName'' = PyStr s"
  then show "work_items app = [app]"
    by (simp add: work_items_def)
qed

theorem work_items_expansion_witness:
  "expand_selected demo_entry =
     Inr [demo_entry(''packageName'' \<mapsto> PyStr ''com.a''), demo_entry(''packageName'' \<mapsto> PyStr ''com.b'')]
   \<and> browse_all False [] [demo_entry] =
     Inr [demo_entry(''packageName'' \<mapsto> PyStr ''com.a''), demo_entry(''packageName'' \<mapsto> PyStr ''com.b'')]
   \<and> length (work_items demo_entry) = 2
   \<and> expand_selected [''packageName'' \<mapsto> PyStr ''com.c''] = Inr [[''packageName'' \<mapsto> PyStr ''com.c'']]"
proof -
  have key: "demo_entry ''packageName'' \<noteq> None"
    by (simp add: demo_entry_def)
  have keys: "\<forall>app \<in> set [demo_entry]. app ''packageName'' \<noteq> None"
    using key by simp
  have names: "dict_get demo_entry ''packageName'' = PyList [''com.a'', ''com.b'']"
    by (simp add: demo_entry_def dict_get_def)
  have items: "work_items demo_entry =
     [demo_entry(''packageName'' \<mapsto> PyStr ''com.a''), demo_entry(''packageName'' \<mapsto> PyStr ''com.b'')]"
    by (simp add: work_items_def names)
  have unskipped: "\<not> skipped False demo_entry"
    by (simp add: skipped_def demo_entry_def dict_get_def)
  have single: "dict_get [''packageName'' \<mapsto> PyStr ''com.c''] ''packageName'' = PyStr ''com.c''"
    by (simp add: dict_get_def)
  from work_items_expansion [where selected_app = demo_entry and catalog = "[demo_entry]"
        and qiuchenly = False and app = demo_entry and names = "[''com.a'', ''com.b'']"]
    work_items_expansion [where selected_app = "[''packageName'' \<mapsto> PyStr ''com.c'']"
        and catalog = "[]" and app = "[''packageName'' \<mapsto> PyStr ''com.c'']"
        and s = "''com.c''"]
    key keys names items unskipped single
  show ?thesis by simp
qed

section \<open>Properties of the menus\<close>

lemma ceil_pages: "0 < s \<Longrightarrow> ((n::int) + s - 1) div s = (n - 1) div s + 1"
proof -
  assume "0 < s"
  then have "s \<noteq> 0" by simp
  then have "((n - 1) + s) div s = (n - 1) div s + 1"
    by (rule div_add_self2)
  then show ?thesis
    by (simp add: algebra_simps)
qed

lemma locate_app_bounds:
  assumes "1 \<le> (i::int)" "i \<le> n" "0 < s"
  shows "0 \<le> (i - 1) mod s" "(i - 1) mod s < s"
    "((i - 1) div s) * s + (i - 1) mod s = i - 1"
    "0 \<le> (i - 1) div s" "(i - 1) div s < (n + s - 1) div s"
proof -
  from assms(3) show "0 \<le> (i - 1) mod s" by simp
  from assms(3) show "(i - 1) mod s < s" by simp
  show "((i - 1) div s) * s + (i - 1) mod s = i - 1" by simp
  from assms show "0 \<le> (i - 1) div s"
    by (simp add: pos_imp_zdiv_nonneg_iff)
  from assms have "(i - 1) div s \<le> (n - 1) div s"
    by (simp add: zdiv_mono1)
  with assms show "(i - 1) div s < (n + s - 1) div s"
    by (simp add: ceil_pages)
qed

lemma select_by_number_page:
  assumes "choice \<notin> set [''1'', ''2'', ''3'', ''4'', ''5'']"
    and "str_int t choice = Some app_idx"
    and "1 \<le> app_idx"
    and "app_idx \<le> int (length (get_installed_supported_apps am))"
    and "page_size self \<noteq> 0"
    and "select_by_number t display am self choice = Chose r self' \<or>
         select_by_number t display am self choice = Again self'"
  shows "current_page self' = fst (locate_app app_idx (page_size self))"
proof -
  define page_num where "page_num = (app_idx - 1) div page_size self"
  define page_idx where "page_idx = (app_idx - 1) mod page_size self"
  define moved where "moved =
    (if current_page self \<noteq> page_num
     then self\<lparr>current_page := page_num,
            last_displayed_apps :=
              fst (display (app_list am) (installed_apps am) page_num (page_size self))\<rparr>
     else self)"
  have page: "current_page moved = page_num"
    by (simp add: moved_def)
  have located: "locate_app app_idx (page_size self) = (page_num, page_idx)"
    by (simp add: locate_app_def page_num_def page_idx_def)
  have unfolded: "select_by_number t display am self choice =
     (if page_idx < int (length (last_displayed_apps moved)) then
        (case py_index (last_displayed_apps moved) page_idx of
           Inl e \<Rightarrow> Raised e
         | Inr selected_app \<Rightarrow>
             (case find_package (dict_get selected_app ''packageName'')
                     (get_installed_supported_apps am) 0 of
                Some global_idx \<Rightarrow> Chose (''SELECT:'' @ str_of_nat global_idx) moved
              | None \<Rightarrow> if current_page self \<noteq> page_num then Raised TypeError else Again moved))
      else if current_page self \<noteq> page_num then Raised TypeError else Again moved)"
    using assms(1-5)
    by (simp only: select_by_number_def Let_def located moved_def split_conv if_True if_False
          simp_thms option.case)
  from assms(6) have "self' = moved"
    unfolding unfolded
    by (auto split: if_splits sum.splits option.splits)
  with page located show ?thesis by simp
qed

text \<open>
  C7. With a positive page size \<open>s\<close>, the app numbered \<open>i\<close> among \<open>n\<close> (\<open>1 \<le> i \<le> n\<close>) is
  located on page \<open>(i - 1) div s\<close> at offset \<open>(i - 1) mod s\<close>; the offset lies in
  \<open>0 ..< s\<close>, page and offset give the number back, and the page is one of the
  \<open>\<lceil>n / s\<rceil>\<close> pages. Choosing an app by its number leaves the menu on that page.
  When the display reports a page within \<open>0 .. total_pages - 1\<close>, the answers \<open>n\<close> and
  \<open>p\<close> keep the menu on a page of that range: \<open>n\<close> moves one page forward except on
  the last page, \<open>p\<close> one page back except on the first.
\<close>

theorem pagination_bounds:
  "(1 \<le> i \<and> i \<le> n \<and> 0 < s \<longrightarrow>
      locate_app i s = ((i - 1) div s, (i - 1) mod s) \<and>
      0 \<le> snd (locate_app i s) \<and> snd (locate_app i s) < s \<and>
      fst (locate_app i s) * s + snd (locate_app i s) = i - 1 \<and>
      0 \<le> fst (locate_app i s) \<and> fst (locate_app i s) < (n + s - 1) div s)
   \<and> (number \<notin> set [''1'', ''2'', ''3'', ''4'', ''5''] \<and> str_int t number = Some app_idx \<and>
       1 \<le> app_idx \<and> app_idx \<le> int (length (get_installed_supported_apps am)) \<and>
       page_size self \<noteq> 0 \<and>
       (select_by_number t display am self number = Chose r self' \<or>
        select_by_number t display am self number = Again self') \<longrightarrow>
       current_page self' = fst (locate_app app_idx (page_size self)))
   \<and> (display (app_list am) (installed_apps am) (current_page self) (page_size self) =
         (apps, page, total_pages) \<and>
       0 \<le> page \<and> page \<le> total_pages - 1 \<and> (choice = ''n'' \<or> choice = ''p'') \<longrightarrow>
       (\<exists>turned. menu_turn t display am self choice = Again turned \<and>
          0 \<le> current_page turned \<and> current_page turned \<le> total_pages - 1 \<and>
          current_page turned =
            (if choice = ''n'' then (if page < total_pages - 1 then page + 1 else page)
             else (if 0 < page then page - 1 else page))))"
proof -
  have located: "1 \<le> i \<and> i \<le> n \<and> 0 < s \<longrightarrow>
      locate_app i s = ((i - 1) div s, (i - 1) mod s) \<and>
      0 \<le> snd (locate_app i s) \<and> snd (locate_app i s) < s \<and>
      fst (locate_app i s) * s + snd (locate_app i s) = i - 1 \<and>
      0 \<le> fst (locate_app i s) \<and> fst (locate_app i s) < (n + s - 1) div s"
  proof
    assume "1 \<le> i \<and> i \<le> n \<and> 0 < s"
    then have i: "1 \<le> i" "i \<le> n" "0 < s" by simp_all
    from locate_app_bounds [OF i]
    show "locate_app i s = ((i - 1) div s, (i - 1) mod s) \<and>
        0 \<le> snd (locate_app i s) \<and> snd (locate_app i s) < s \<and>
        fst (locate_app i s) * s + snd (locate_app i s) = i - 1 \<and>
        0 \<le> fst (locate_app i s) \<and> fst (locate_app i s) < (n + s - 1) div s"
      by (simp add: locate_app_def)
  qed
  have jump: "number \<notin> set [''1'', ''2'', ''3'', ''4'', ''5''] \<and> str_int t number = Some app_idx \<and>
       1 \<le> app_idx \<and> app_idx \<le> int (length (get_installed_supported_apps am)) \<and>
       page_size self \<noteq> 0 \<and>
       (select_by_number t display am self number = Chose r self' \<or>
        select_by_number t display am self number = Again self') \<longrightarrow>
       current_page self' = fst (locate_app app_idx (page_size self))"
    using select_by_number_page [of number t app_idx am self display r self'] by blast
  have turn: "display (app_list am) (installed_apps am) (current_page self) (page_size self) =
         (apps, page, total_pages) \<and>
       0 \<le> page \<and> page \<le> total_pages - 1 \<and> (choice = ''n'' \<or> choice = ''p'') \<longrightarrow>
       (\<exists>turned. menu_turn t display am self choice = Again turned \<and>
          0 \<le> current_page turned \<and> current_page turned \<le> total_pages - 1 \<and>
          current_page turned =
            (if choice = ''n'' then (if page < total_pages - 1 then page + 1 else page)
             else (if 0 < page then page - 1 else page)))"
  proof
    assume "display (app_list am) (installed_apps am) (current_page self) (page_size self) =
         (apps, page, total_pages) \<and>
       0 \<le> page \<and> page \<le> total_pages - 1 \<and> (choice = ''n'' \<or> choice = ''p'')"
    then have shown: "display (app_list am) (installed_apps am) (current_page self) (page_size self) =
         (apps, page, total_pages)" and range: "0 \<le> page" "page \<le> total_pages - 1"
      and choice: "choice = ''n'' \<or> choice = ''p''" by simp_all
    from choice show "\<exists>turned. menu_turn t display am self choice = Again turned \<and>
          0 \<le> current_page turned \<and> current_page turned \<le> total_pages - 1 \<and>
          current_page turned =
            (if choice = ''n'' then (if page < total_pages - 1 then page + 1 else page)
             else (if 0 < page then page - 1 else page))"
    proof
      assume "choice = ''n''"
      with shown range show ?thesis by (simp add: menu_turn_def)
    next
      assume "choice = ''p''"
      with shown range show ?thesis by (simp add: menu_turn_def)
    qed
  qed
  from located jump turn show ?thesis
    by (intro conjI)
qed

theorem pagination_bounds_witness:
  "locate_app 7 2 = (3, 0)
   \<and> menu_turn demo_str demo_display demo_manager demo_menu ''n'' =
       Again (demo_menu\<lparr>current_page := 1, last_displayed_apps := take 2 demo_apps\<rparr>)
   \<and> menu_turn demo_str demo_display demo_manager demo_menu ''p'' =
       Again (demo_menu\<lparr>current_page := 0, last_displayed_apps := take 2 demo_apps\<rparr>)
   \<and> select_by_number demo_str demo_display demo_manager demo_menu ''7'' =
       Chose ''SELECT:6'' (demo_menu\<lparr>current_page := 3, last_displayed_apps := [demo_app ''com.g'']\<rparr>)"
proof -
  have shown: "demo_display (app_list demo_manager) (installed_apps demo_manager)
      (current_page demo_menu) (page_size demo_menu) = (take 2 demo_apps, 0, 4)"
    by (simp add: demo_display_def demo_manager_def demo_menu_def demo_apps_def)
  have turn_n: "menu_turn demo_str demo_display demo_manager demo_menu ''n'' =
       Again (demo_menu\<lparr>current_page := 1, last_displayed_apps := take 2 demo_apps\<rparr>)"
    by (simp add: menu_turn_def shown)
  have turn_p: "menu_turn demo_str demo_display demo_manager demo_menu ''p'' =
       Again (demo_menu\<lparr>current_page := 0, last_displayed_apps := take 2 demo_apps\<rparr>)"
    by (simp add: menu_turn_def shown)
  have seven: "str_int demo_str ''7'' = Some 7"
    "length (get_installed_supported_apps demo_manager) = 7" "page_size demo_menu = 2"
    by (simp_all add: demo_str_def sample_int_def sample_digit_def demo_manager_def
          demo_apps_def demo_menu_def)
  have chosen: "select_by_number demo_str demo_display demo_manager demo_menu ''7'' =
       Chose ''SELECT:6'' (demo_menu\<lparr>current_page := 3, last_displayed_apps := [demo_app ''com.g'']\<rparr>)"
    by (simp add: select_by_number_def seven locate_app_def demo_display_def demo_manager_def
          demo_menu_def demo_apps_def demo_app_def py_index_def dict_get_def)
  note bounds = pagination_bounds [where i = 7 and n = 7 and s = 2 and display = demo_display
      and t = demo_str and am = demo_manager and self = demo_menu and apps = "take 2 demo_apps"
      and page = 0 and total_pages = 4 and number = "''7''" and app_idx = 7
      and r = "''SELECT:6''"
      and self' = "demo_menu\<lparr>current_page := 3, last_displayed_apps := [demo_app ''com.g'']\<rparr>"]
  from bounds [where choice = "''n''"] bounds [where choice = "''p''"]
    shown turn_n turn_p seven chosen
  show ?thesis by simp
qed

lemma menu_turn_invalid:
  assumes "choice \<notin> set [''n'', ''p'', ''s'', ''l'', ''q'']"
    and "\<not> str_isdigit t choice \<or> str_int t choice = None \<or>
         (\<exists>number. str_int t choice = Some number \<and>
            choice \<notin> set [''1'', ''2'', ''3'', ''4'', ''5''] \<and>
            \<not> (1 \<le> number \<and> number \<le> int (length (get_installed_supported_apps am))))"
  shows "menu_turn t display am self choice = Again (refreshed display am self)"
proof (cases "display (app_list am) (installed_apps am) (current_page self) (page_size self)")
  case (fields displayed_apps page total_pages)
  from assms(1) have letters: "choice \<noteq> ''n''" "choice \<noteq> ''p''" "choice \<noteq> ''s''"
    "choice \<noteq> ''l''" "choice \<noteq> ''q''" by auto
  have turn: "menu_turn t display am self choice =
      (if str_isdigit t choice
       then select_by_number t display am
              (self\<lparr>current_page := page, last_displayed_apps := displayed_apps\<rparr>) choice
       else Again (self\<lparr>current_page := page, last_displayed_apps := displayed_apps\<rparr>))"
    using letters fields by (simp add: menu_turn_def)
  have shown: "refreshed display am self =
      self\<lparr>current_page := page, last_displayed_apps := displayed_apps\<rparr>"
    using fields by (simp add: refreshed_def)
  show ?thesis
  proof (cases "str_isdigit t choice")
    case False
    then show ?thesis by (simp add: turn shown)
  next
    case True
    show ?thesis
    proof (cases "str_int t choice")
      case None
      with True show ?thesis
        by (simp add: turn shown select_by_number_def)
    next
      case (Some number)
      with True assms(2) have "choice \<notin> set [''1'', ''2'', ''3'', ''4'', ''5'']"
        and "\<not> (1 \<le> number \<and> number \<le> int (length (get_installed_supported_apps am)))"
        by auto
      with True Some show ?thesis
        by (auto simp: turn shown select_by_number_def Let_def)
    qed
  qed
qed

text \<open>
  C4, as the claim states it, fails at the number prompt of main.py: an answer that is
  no number ends the program, and the valid answer typed next is never read; had the
  prompt asked again, that answer would have chosen the first app.
\<close>

theorem main_number_prompt_exits:
  "select_from_matches demo_str [[''packageName'' \<mapsto> PyStr ''com.a'']] [''abc'', ''1''] =
     Inr (Exited, [''1''])
   \<and> select_from_matches demo_str [[''packageName'' \<mapsto> PyStr ''com.a'']] [''1''] =
     Inr (Chosen [''packageName'' \<mapsto> PyStr ''com.a''], [])"
  by (simp add: select_from_matches_def choose_app_def py_index_def demo_str_def sample_strip_def
        sample_space_def sample_isdigit_def sample_int_def sample_digit_def)

text \<open>
  C4, amended. In the menu manager an invalid answer asks again. At the operation prompt
  of \<open>show_main_menu\<close>, an answer that is no command letter and is not accepted by
  \<open>isdigit\<close>, or is not read by \<open>int\<close>, or is read as a number that is neither a menu
  option nor the number of an installed supported app, leaves the loop running on the
  remaining answers. At the number prompt of \<open>handle_app_search\<close>, a line that is not
  \<open>0\<close>, not blank, names no matched app and is not one that \<open>isdigit\<close> accepts and \<open>int\<close>
  rejects, leaves the selection as it was and reads the next line. The number prompt of
  main.py instead ends the program on an answer that \<open>isdigit\<close> does not accept, or that
  is read as zero or as a number above the number of matches.
\<close>

theorem invalid_input_reprompts_in_menus:
  "(choice \<notin> set [''n'', ''p'', ''s'', ''l'', ''q''] \<and>
    (\<not> str_isdigit t choice \<or> str_int t choice = None \<or>
     (\<exists>number. str_int t choice = Some number \<and>
        choice \<notin> set [''1'', ''2'', ''3'', ''4'', ''5''] \<and>
        \<not> (1 \<le> number \<and> number \<le> int (length (get_installed_supported_apps am))))) \<longrightarrow>
    show_main_menu t display (Some am) self (choice # answers) =
      show_main_menu t display (Some am) (refreshed display am self) answers)
   \<and> (card selected < length matched_apps \<and> str_strip t line \<noteq> ''0'' \<and> str_strip t line \<noteq> [] \<and>
       \<not> names_app t (length matched_apps) line \<and> \<not> unreadable t (str_strip t line) \<longrightarrow>
       select_loop t matched_apps app_Lst selected (line # inputs) =
         select_loop t matched_apps app_Lst selected inputs)
   \<and> (\<not> str_isdigit t (str_strip t line) \<or>
       (\<exists>number. str_int t (str_strip t line) = Some number \<and>
          (number = 0 \<or> number > int (length matched_apps))) \<longrightarrow>
       select_from_matches t matched_apps (line # inputs) = Inr (Exited, inputs))"
proof -
  have menu: "choice \<notin> set [''n'', ''p'', ''s'', ''l'', ''q''] \<and>
    (\<not> str_isdigit t choice \<or> str_int t choice = None \<or>
     (\<exists>number. str_int t choice = Some number \<and>
        choice \<notin> set [''1'', ''2'', ''3'', ''4'', ''5''] \<and>
        \<not> (1 \<le> number \<and> number \<le> int (length (get_installed_supported_apps am))))) \<longrightarrow>
    show_main_menu t display (Some am) self (choice # answers) =
      show_main_menu t display (Some am) (refreshed display am self) answers"
  proof
    assume "choice \<notin> set [''n'', ''p'', ''s'', ''l'', ''q''] \<and>
      (\<not> str_isdigit t choice \<or> str_int t choice = None \<or>
       (\<exists>number. str_int t choice = Some number \<and>
          choice \<notin> set [''1'', ''2'', ''3'', ''4'', ''5''] \<and>
          \<not> (1 \<le> number \<and> number \<le> int (length (get_installed_supported_apps am)))))"
    then have "menu_turn t display am self choice = Again (refreshed display am self)"
      using menu_turn_invalid [of choice t am display self] by blast
    then show "show_main_menu t display (Some am) self (choice # answers) =
        show_main_menu t display (Some am) (refreshed display am self) answers"
      by simp
  qed
  have search: "card selected < length matched_apps \<and> str_strip t line \<noteq> ''0'' \<and>
       str_strip t line \<noteq> [] \<and>
       \<not> names_app t (length matched_apps) line \<and> \<not> unreadable t (str_strip t line) \<longrightarrow>
       select_loop t matched_apps app_Lst selected (line # inputs) =
         select_loop t matched_apps app_Lst selected inputs"
    by (auto simp: names_app_def unreadable_def Let_def split: option.splits)
  have main: "\<not> str_isdigit t (str_strip t line) \<or>
       (\<exists>number. str_int t (str_strip t line) = Some number \<and>
          (number = 0 \<or> number > int (length matched_apps))) \<longrightarrow>
       select_from_matches t matched_apps (line # inputs) = Inr (Exited, inputs)"
    by (auto simp: select_from_matches_def choose_app_def Let_def)
  from menu search main show ?thesis
    by (intro conjI)
qed

theorem invalid_input_reprompts_in_menus_witness:
  "show_main_menu demo_str demo_display (Some demo_manager) demo_menu
       [''x'', ''9'', [CHR 0xB2], ''q''] =
     Inr (''5'', demo_menu\<lparr>current_page := 0, last_displayed_apps := take 2 demo_apps\<rparr>)
   \<and> select_loop demo_str demo_apps [] {} [''x'', ''0''] = Inr []
   \<and> select_from_matches demo_str demo_apps [''x'', ''1''] = Inr (Exited, [''1''])
   \<and> select_from_matches demo_str demo_apps [''9'', ''1''] = Inr (Exited, [''1''])"
proof -
  let ?shown = "demo_menu\<lparr>current_page := 0, last_displayed_apps := take 2 demo_apps\<rparr>"
  have shown: "refreshed demo_display demo_manager demo_menu = ?shown"
    by (simp add: refreshed_def demo_display_def demo_manager_def demo_menu_def demo_apps_def)
  have again: "refreshed demo_display demo_manager ?shown = ?shown"
    by (simp add: refreshed_def demo_display_def demo_manager_def demo_menu_def demo_apps_def)
  have x: "str_strip demo_str ''x'' = ''x''" "\<not> str_isdigit demo_str ''x''"
    by (simp_all add: demo_str_def sample_strip_def sample_space_def sample_isdigit_def)
  have nine: "str_strip demo_str ''9'' = ''9''" "str_isdigit demo_str ''9''"
    "str_int demo_str ''9'' = Some 9"
    "length (get_installed_supported_apps demo_manager) = 7" "length demo_apps = 7"
    by (simp_all add: demo_str_def sample_strip_def sample_space_def sample_isdigit_def
          sample_int_def sample_digit_def demo_manager_def demo_apps_def)
  have two: "str_int demo_str [CHR 0xB2] = None"
    by (simp add: demo_str_def sample_int_def)
  have quit: "show_main_menu demo_str demo_display (Some demo_manager) ?shown [''q''] =
     Inr (''5'', ?shown)"
    by (simp add: menu_turn_def demo_display_def demo_manager_def demo_menu_def demo_apps_def)
  have zero: "select_loop demo_str demo_apps [] {} [''0''] = Inr []"
    by (simp add: demo_str_def sample_strip_def sample_space_def demo_apps_def)
  note reprompt = invalid_input_reprompts_in_menus [where t = demo_str and display = demo_display
      and am = demo_manager and matched_apps = demo_apps and selected = "{}" and app_Lst = "[]"]
  from reprompt [where choice = "''x''" and self = demo_menu
        and answers = "[''9'', [CHR 0xB2], ''q'']" and line = "''x''" and inputs = "[''0'']"]
    reprompt [where choice = "''9''" and self = ?shown and answers = "[[CHR 0xB2], ''q'']"
        and line = "''x''" and inputs = "[''1'']"]
    reprompt [where choice = "[CHR 0xB2]" and self = ?shown and answers = "[''q'']"
        and line = "''9''" and inputs = "[''1'']"]
    shown again x nine two quit zero
  show ?thesis
    by (simp add: names_app_def unreadable_def)
qed

section \<open>Properties of the selection loop\<close>

lemma first_occurrences_snoc:
  "first_occurrences (is @ [i]) =
     (if i \<in> set is then first_occurrences is else first_occurrences is @ [i])"
  by (simp add: first_occurrences_def)

lemma set_first_occurrences: "set (first_occurrences is) = set is"
  by (simp add: first_occurrences_def)

lemma distinct_first_occurrences: "distinct (first_occurrences is)"
  by (simp add: first_occurrences_def)

lemma picks_snoc:
  "picks t n (lines @ [line]) =
     (if names_app t n line then picks t n lines @ [index_named t line] else picks t n lines)"
  by (simp add: picks_def)

lemma picks_bound: "i \<in> set (picks t n lines) \<Longrightarrow> i < n"
  by (auto simp: picks_def names_app_def index_named_def split: option.splits)

text \<open>
  The loop, turn by turn, in terms of the lines read so far: a line ends the loop with
  the list built so far, or raises, or is added to the lines read.
\<close>

lemma select_loop_step:
  assumes "app_Lst = map ((!) matched_apps) (first_occurrences (picks t (length matched_apps) seen))"
    and "selected = set (picks t (length matched_apps) seen)"
  shows "select_loop t matched_apps app_Lst selected (line # inputs) = Inr app_Lst \<or>
     select_loop t matched_apps app_Lst selected (line # inputs) = Inl ValueError \<or>
     select_loop t matched_apps app_Lst selected (line # inputs) =
       select_loop t matched_apps
         (map ((!) matched_apps)
            (first_occurrences (picks t (length matched_apps) (seen @ [line]))))
         (set (picks t (length matched_apps) (seen @ [line]))) inputs"
proof (cases "card selected < length matched_apps")
  case False
  then show ?thesis by simp
next
  case more: True
  show ?thesis
  proof (cases "str_strip t line = ''0''")
    case True
    with more show ?thesis by simp
  next
    case nonzero: False
    show ?thesis
    proof (cases "names_app t (length matched_apps) line")
      case True
      then obtain number where valid: "str_isdigit t (str_strip t line)"
        "str_int t (str_strip t line) = Some number"
        "0 < number" "number \<le> int (length matched_apps)"
        by (auto simp: names_app_def split: option.splits)
      then have index: "index_named t line = nat (number - 1)"
        by (simp add: index_named_def)
      show ?thesis
      proof (cases "nat (number - 1) \<in> selected")
        case True
        with more nonzero valid index \<open>names_app t (length matched_apps) line\<close> assms
        show ?thesis
          by (simp add: picks_snoc first_occurrences_snoc insert_absorb Let_def)
      next
        case False
        with more nonzero valid index \<open>names_app t (length matched_apps) line\<close> assms
        show ?thesis
          by (simp add: picks_snoc first_occurrences_snoc Let_def)
      qed
    next
      case no_app: False
      then have same: "picks t (length matched_apps) (seen @ [line]) =
          picks t (length matched_apps) seen"
        by (simp add: picks_snoc)
      show ?thesis
      proof (cases "unreadable t (str_strip t line)")
        case True
        with more nonzero show ?thesis
          by (simp add: unreadable_def Let_def)
      next
        case readable: False
        have otherwise: "select_loop t matched_apps app_Lst selected (line # inputs) =
            (if str_strip t line = [] then
               (if app_Lst = [] then select_loop t matched_apps app_Lst selected inputs
                else Inr app_Lst)
             else select_loop t matched_apps app_Lst selected inputs)"
          using more nonzero no_app readable
          by (auto simp: names_app_def unreadable_def Let_def split: option.splits)
        show ?thesis
          unfolding otherwise same using assms by auto
      qed
    qed
  qed
qed

lemma select_loop_result:
  assumes "app_Lst = map ((!) matched_apps) (first_occurrences (picks t (length matched_apps) seen))"
    and "selected = set (picks t (length matched_apps) seen)"
    and "select_loop t matched_apps app_Lst selected inputs = Inr r"
  shows "\<exists>k \<le> length inputs.
     r = map ((!) matched_apps)
           (first_occurrences (picks t (length matched_apps) (seen @ take k inputs)))"
  using assms
proof (induction inputs arbitrary: seen app_Lst selected)
  case Nil
  then have "r = app_Lst" by (simp split: if_splits)
  with Nil show ?case by simp
next
  case (Cons line inputs)
  from select_loop_step [OF Cons.prems(1) Cons.prems(2), of line inputs]
  consider "select_loop t matched_apps app_Lst selected (line # inputs) = Inr app_Lst"
    | "select_loop t matched_apps app_Lst selected (line # inputs) = Inl ValueError"
    | "select_loop t matched_apps app_Lst selected (line # inputs) =
       select_loop t matched_apps
         (map ((!) matched_apps)
            (first_occurrences (picks t (length matched_apps) (seen @ [line]))))
         (set (picks t (length matched_apps) (seen @ [line]))) inputs"
    by blast
  then show ?case
  proof cases
    case 1
    with Cons.prems have "r = map ((!) matched_apps)
        (first_occurrences (picks t (length matched_apps) (seen @ take 0 (line # inputs))))"
      by simp
    then show ?thesis by blast
  next
    case 2
    with Cons.prems(3) show ?thesis by simp
  next
    case 3
    with Cons.prems(3) have "select_loop t matched_apps
         (map ((!) matched_apps)
            (first_occurrences (picks t (length matched_apps) (seen @ [line]))))
         (set (picks t (length matched_apps) (seen @ [line]))) inputs = Inr r"
      by simp
    from Cons.IH [OF refl refl this] obtain k where k: "k \<le> length inputs"
      and r: "r = map ((!) matched_apps)
           (first_occurrences (picks t (length matched_apps) ((seen @ [line]) @ take k inputs)))"
      by blast
    from r have "r = map ((!) matched_apps)
           (first_occurrences
              (picks t (length matched_apps) (seen @ take (Suc k) (line # inputs))))"
      by simp
    moreover from k have "Suc k \<le> length (line # inputs)" by simp
    ultimately show ?thesis by blast
  qed
qed

lemma select_loop_cancel:
  assumes "\<forall>line \<in> set before. \<not> names_app t (length matched_apps) line \<and>
             str_strip t line \<noteq> ''0'' \<and> \<not> unreadable t (str_strip t line)"
    and "str_strip t zero = ''0''"
  shows "select_loop t matched_apps [] {} (before @ zero # rest) = Inr []"
  using assms(1)
proof (induction before)
  case Nil
  with assms(2) show ?case by simp
next
  case (Cons line before)
  then have rest: "select_loop t matched_apps [] {} (before @ zero # rest) = Inr []"
    and line: "\<not> names_app t (length matched_apps) line" "str_strip t line \<noteq> ''0''"
      "\<not> unreadable t (str_strip t line)"
    by simp_all
  from line rest show ?case
    by (auto simp: names_app_def unreadable_def Let_def split: option.splits)
qed

lemma select_loop_returns:
  "\<exists>line \<in> set inputs. str_strip t line = ''0'' \<Longrightarrow>
   \<forall>line \<in> set inputs. \<not> unreadable t (str_strip t line) \<Longrightarrow>
   \<exists>r. select_loop t matched_apps app_Lst selected inputs = Inr r"
proof (induction inputs arbitrary: app_Lst selected)
  case Nil
  then show ?case by simp
next
  case (Cons line inputs)
  show ?case
  proof (cases "str_strip t line = ''0''")
    case True
    then show ?thesis by simp
  next
    case False
    with Cons.prems have "\<exists>line \<in> set inputs. str_strip t line = ''0''"
      and later: "\<forall>line \<in> set inputs. \<not> unreadable t (str_strip t line)"
      and now: "\<not> unreadable t (str_strip t line)"
      by simp_all
    from Cons.IH [OF this(1) later] have
      step: "\<exists>r. select_loop t matched_apps a s inputs = Inr r" for a s
      by blast
    from now False step show ?thesis
      by (auto simp: unreadable_def Let_def split: option.splits)
  qed
qed

lemma distinct_selection:
  assumes "distinct xs" "distinct is" "\<forall>i \<in> set is. i < length xs"
  shows "distinct (map ((!) xs) is)"
proof -
  from assms(1,3) have "inj_on ((!) xs) (set is)"
    by (auto simp: inj_on_def nth_eq_iff_index_eq)
  with assms(2) show ?thesis
    by (simp add: distinct_map)
qed

text \<open>
  C10. Whatever \<open>handle_app_search\<close> returns is the matched apps at a list of indices
  that has no index twice and only indices of matched apps, and the indices stand in
  the order in which the lines read up to the return first named them; so a returned
  app is a matched app, no position of the matched list is returned twice, and the
  returned list has no duplicate when the matched list has none. A \<open>0\<close> read before
  any line has named an app returns the empty list: the lines read before it are lines
  that name no app and that \<open>int\<close> does not reject after \<open>isdigit\<close> has accepted them
  (such a line raises \<open>ValueError\<close>, and nothing after it is read). A run of lines
  without such a line that holds a \<open>0\<close> always returns.
\<close>

theorem handle_app_search_selection:
  "(handle_app_search t am (line # inputs) = Inr r \<longrightarrow>
      (\<exists>k \<le> length inputs. \<exists>is.
         is = first_occurrences
                (picks t (length (search_by_keyword am (str_strip t line))) (take k inputs)) \<and>
         r = map ((!) (search_by_keyword am (str_strip t line))) is \<and>
         distinct is \<and>
         (\<forall>i \<in> set is. i < length (search_by_keyword am (str_strip t line))) \<and>
         set r \<subseteq> set (search_by_keyword am (str_strip t line)) \<and>
         (distinct (search_by_keyword am (str_strip t line)) \<longrightarrow> distinct r)))
   \<and> ((\<forall>l \<in> set before.
          \<not> names_app t (length (search_by_keyword am (str_strip t line))) l \<and>
          str_strip t l \<noteq> ''0'' \<and> \<not> unreadable t (str_strip t l)) \<and>
       str_strip t zero = ''0'' \<longrightarrow>
       handle_app_search t am (line # before @ zero # rest) = Inr [])
   \<and> ((\<exists>l \<in> set inputs. str_strip t l = ''0'') \<and>
       (\<forall>l \<in> set inputs. \<not> unreadable t (str_strip t l)) \<longrightarrow>
       (\<exists>r. handle_app_search t am (line # inputs) = Inr r))"
proof (rule conjI; (rule conjI)?; rule impI)
  let ?matched = "search_by_keyword am (str_strip t line)"
  assume run: "handle_app_search t am (line # inputs) = Inr r"
  have "\<exists>k \<le> length inputs.
      r = map ((!) ?matched) (first_occurrences (picks t (length ?matched) (take k inputs)))"
  proof (cases "str_strip t line = [] \<or> ?matched = []")
    case True
    with run have "r = []"
      by (auto simp: handle_app_search_def Let_def split: if_splits)
    then have "r = map ((!) ?matched)
        (first_occurrences (picks t (length ?matched) (take 0 inputs)))"
      by (simp add: picks_def first_occurrences_def)
    then show ?thesis by blast
  next
    case False
    with run have "select_loop t ?matched [] {} inputs = Inr r"
      by (simp add: handle_app_search_def Let_def)
    from select_loop_result [of "[]" ?matched t "[]" "{}" inputs r, OF _ _ this]
    show ?thesis
      by (simp add: picks_def first_occurrences_def)
  qed
  then obtain k where k: "k \<le> length inputs"
    and r: "r = map ((!) ?matched)
        (first_occurrences (picks t (length ?matched) (take k inputs)))"
    by blast
  let ?is = "first_occurrences (picks t (length ?matched) (take k inputs))"
  have bound: "\<forall>i \<in> set ?is. i < length ?matched"
    by (simp add: set_first_occurrences picks_bound)
  have "set r \<subseteq> set ?matched"
    using bound by (auto simp: r)
  moreover have "distinct ?matched \<longrightarrow> distinct r"
    using distinct_selection [OF _ distinct_first_occurrences bound] by (simp add: r)
  ultimately show "\<exists>k \<le> length inputs. \<exists>is.
         is = first_occurrences (picks t (length ?matched) (take k inputs)) \<and>
         r = map ((!) ?matched) is \<and> distinct is \<and>
         (\<forall>i \<in> set is. i < length ?matched) \<and>
         set r \<subseteq> set ?matched \<and> (distinct ?matched \<longrightarrow> distinct r)"
    using k r bound distinct_first_occurrences by blast
next
  assume "(\<forall>l \<in> set before.
          \<not> names_app t (length (search_by_keyword am (str_strip t line))) l \<and>
          str_strip t l \<noteq> ''0'' \<and> \<not> unreadable t (str_strip t l)) \<and>
       str_strip t zero = ''0''"
  then have "select_loop t (search_by_keyword am (str_strip t line)) [] {}
      (before @ zero # rest) = Inr []"
    using select_loop_cancel by blast
  then show "handle_app_search t am (line # before @ zero # rest) = Inr []"
    by (simp add: handle_app_search_def Let_def)
next
  assume "(\<exists>l \<in> set inputs. str_strip t l = ''0'') \<and>
       (\<forall>l \<in> set inputs. \<not> unreadable t (str_strip t l))"
  then have "\<exists>r. select_loop t (search_by_keyword am (str_strip t line)) [] {} inputs = Inr r"
    using select_loop_returns by blast
  then show "\<exists>r. handle_app_search t am (line # inputs) = Inr r"
    by (simp add: handle_app_search_def Let_def)
qed

theorem handle_app_search_selection_witness:
  "handle_app_search demo_str demo_manager
       [''a'', ''2'', [CHR 0xA0] @ ''2 '', ''x'', ''1'', ''''] =
     Inr [demo_apps ! 1, demo_apps ! 0]
   \<and> handle_app_search demo_str demo_manager [''a'', ''x'', ''0'', ''1''] = Inr []
   \<and> handle_app_search demo_str demo_manager [''a'', ''3'', ''0''] = Inr [demo_apps ! 2]
   \<and> handle_app_search demo_str demo_manager [''a'', [CHR 0xB2], ''0''] = Inl ValueError"
proof -
  note strs = demo_str_def sample_strip_def sample_space_def sample_isdigit_def
    sample_int_def sample_digit_def
  have run: "handle_app_search demo_str demo_manager
       [''a'', ''2'', [CHR 0xA0] @ ''2 '', ''x'', ''1'', ''''] =
     Inr [demo_apps ! 1, demo_apps ! 0]"
    by (simp add: handle_app_search_def demo_manager_def demo_apps_def strs)
  have stop: "handle_app_search demo_str demo_manager [''a'', ''3'', ''0''] =
     Inr [demo_apps ! 2]"
    by (simp add: handle_app_search_def demo_manager_def demo_apps_def strs)
  have raised: "handle_app_search demo_str demo_manager [''a'', [CHR 0xB2], ''0''] =
     Inl ValueError"
    by (simp add: handle_app_search_def demo_manager_def demo_apps_def strs)
  have x: "\<forall>l \<in> set [''x''].
      \<not> names_app demo_str (length (search_by_keyword demo_manager (str_strip demo_str ''a''))) l \<and>
      str_strip demo_str l \<noteq> ''0'' \<and> \<not> unreadable demo_str (str_strip demo_str l)"
    by (simp add: names_app_def unreadable_def strs)
  have zero: "str_strip demo_str ''0'' = ''0''"
    by (simp add: strs)
  from zero have held: "\<exists>l \<in> set [''3'', ''0'']. str_strip demo_str l = ''0''"
    by simp
  have readable: "\<forall>l \<in> set [''3'', ''0'']. \<not> unreadable demo_str (str_strip demo_str l)"
    by (simp add: unreadable_def strs)
  note selection = handle_app_search_selection [where t = demo_str and am = demo_manager
      and line = "''a''" and before = "[''x'']" and zero = "''0''" and rest = "[''1'']"]
  from selection [where inputs = "[''2'', [CHR 0xA0] @ ''2 '', ''x'', ''1'', '''']"
        and r = "[demo_apps ! 1, demo_apps ! 0]"]
    selection [where inputs = "[''3'', ''0'']" and r = "[demo_apps ! 2]"]
    run stop raised x zero held readable
  show ?thesis by simp
qed

section \<open>Properties of the action sequencer\<close>

lemma ignore_run_status:
  "same_but_status a b \<Longrightarrow> ignore (run_cmd a c) = ignore (run_cmd b c)"
  by (rule ext) (simp add: same_but_status_def ignore_def bind_m_def unit_m_def run_cmd_def
        split: prod.splits)

lemma for_run_status:
  assumes "same_but_status a b"
  shows "for_m (\<lambda>x. run_cmd a (f x)) xs = for_m (\<lambda>x. run_cmd b (f x)) xs"
proof (rule ext)
  fix s
  from assms have "snd (os_run a c w) = snd (os_run b c w)" for c w
    by (simp add: same_but_status_def)
  then show "for_m (\<lambda>x. run_cmd a (f x)) xs s = for_m (\<lambda>x. run_cmd b (f x)) xs s"
    by (induction xs arbitrary: s) (simp_all add: run_cmd_def split: prod.splits)
qed

lemma observations_status:
  assumes "same_but_status a b"
  shows "path_exists_m a = path_exists_m b" "remove_m a = remove_m b" "input_m a = input_m b"
    "manifest_key a = manifest_key b" "os_home a = os_home b"
proof -
  from assms have same: "os_exists a = os_exists b" "os_remove a = os_remove b"
    "os_input a = os_input b" "os_load_plist a = os_load_plist b" "os_home a = os_home b"
    by (simp_all add: same_but_status_def)
  show "path_exists_m a = path_exists_m b"
    by (intro ext) (simp add: path_exists_m_def same)
  show "remove_m a = remove_m b"
    by (intro ext) (simp add: remove_m_def same)
  show "input_m a = input_m b"
    by (intro ext) (simp add: input_m_def same)
  show "manifest_key a = manifest_key b"
    by (intro ext) (simp add: manifest_key_def same)
  show "os_home a = os_home b"
    by (rule same)
qed

lemma handle_keygen_status:
  "same_but_status a b \<Longrightarrow> handle_keygen a ident = handle_keygen b ident"
  by (simp add: handle_keygen_def ignore_run_status observations_status(5))

lemma handle_helper_status:
  assumes "same_but_status a b"
  shows "handle_helper a app_base target comps extra bridge =
         handle_helper b app_base target comps extra bridge"
  unfolding handle_helper_def Let_def
  by (simp only: ignore_run_status [OF assms] for_run_status [OF assms]
        observations_status [OF assms])

lemma prepare_status: "same_but_status a b \<Longrightarrow> prepare a j = prepare b j"
  unfolding prepare_def getAppMainExecutable_def
  by (simp only: ignore_run_status for_run_status observations_status)

lemma backup_stage_status:
  "same_but_status a b \<Longrightarrow> backup_stage t a dest backup = backup_stage t b dest backup"
  unfolding backup_stage_def
  by (simp only: ignore_run_status for_run_status observations_status)

lemma insert_stage_status:
  "same_but_status a b \<Longrightarrow> insert_stage a j dest backup = insert_stage b j dest backup"
  unfolding insert_stage_def component_targets_def getAppMainExecutable_def
  by (simp only: ignore_run_status for_run_status observations_status)

lemma sign_stage_status: "same_but_status a b \<Longrightarrow> sign_stage a j dest = sign_stage b j dest"
  unfolding sign_stage_def
  by (simp only: ignore_run_status for_run_status observations_status)

lemma helper_stage_status: "same_but_status a b \<Longrightarrow> helper_stage a j = helper_stage b j"
  unfolding helper_stage_def
  by (simp only: handle_helper_status)

lemma reset_permissions_status:
  assumes "same_but_status a b"
  shows "reset_permissions a tcc = reset_permissions b tcc"
proof (rule ext)
  fix ident
  show "reset_permissions a tcc ident = reset_permissions b tcc ident"
    by (cases tcc)
       (simp_all add: reset_permissions_def ignore_run_status [OF assms]
          for_run_status [OF assms])
qed

lemma tcc_stage_status: "same_but_status a b \<Longrightarrow> tcc_stage a j = tcc_stage b j"
  unfolding tcc_stage_def getBundleID_def
  by (simp only: reset_permissions_status observations_status)

text \<open>
  C3. Two runs of the sequencer for an approved app that differ only in the exit
  statuses of the commands they start go the same way: from the same world and log,
  they raise the same error or end with the same world and the same log, that is, the
  same commands, removals and messages in the same order. The same holds for
  \<open>handle_helper\<close> and \<open>handle_keygen\<close> on their own. No exit status stops the
  sequencer, is reported or decides a branch. This holds whatever the string methods
  make of the answer read at the backup prompt.
\<close>

theorem sequencer_ignores_exit_status:
  assumes "same_but_status a b"
  shows "inject t a j s = inject t b j s
    \<and> handle_helper a app_base target comps extra bridge s =
       handle_helper b app_base target comps extra bridge s
    \<and> handle_keygen a ident s = handle_keygen b ident s"
proof -
  have "inject t a j = inject t b j"
    unfolding inject_def
    by (simp only: prepare_status [OF assms] handle_keygen_status [OF assms]
          backup_stage_status [OF assms] insert_stage_status [OF assms]
          sign_stage_status [OF assms] helper_stage_status [OF assms]
          tcc_stage_status [OF assms])
  with handle_helper_status [OF assms] handle_keygen_status [OF assms]
  show ?thesis by simp
qed


theorem sequencer_ignores_exit_status_witness:
  "same_but_status (demo_os 0) (demo_os 1)
   \<and> inject demo_str (demo_os 0) demo_job ([''''], []) =
       inject demo_str (demo_os 1) demo_job ([''''], [])
   \<and> inject demo_str (demo_os 1) demo_job ([''''], []) =
       Inr ((), ([],
         [Print (MsgStart (PyStr ''com.a'')),
          Run (Argv [''sudo'', ''chmod'', ''-R'', ''777'', ''/Applications/A.app'']),
          Run (Argv [''sudo'', ''xattr'', ''-cr'', ''/Applications/A.app'']),
          Run (Argv [''sudo'', ''pkill'', ''-f'', ''alpha'']),
          Print MsgBackupExists,
          Run (Shell ''chmod +x /opt/inject/tool/insert_dylib''),
          Run (Shell (insert_command ''/opt/inject'' (quoted ''/opt/inject/tool/91QiuChenly.dylib'')
                 ''/Applications/A.app/Contents/MacOS/alpha_backup''
                 ''/Applications/A.app/Contents/MacOS/alpha'')),
          Print MsgSigning,
          Run (Shell (''/usr/bin/codesign -f -s - --timestamp=none --all-architectures '' @
                 quoted ''/Applications/A.app/Contents/MacOS/alpha'')),
          Run (Shell (''sudo xattr -cr '' @ quoted ''/Applications/A.app/Contents/MacOS/alpha'')),
          Run (Shell ''tccutil reset All com.a''),
          Print MsgFinished]))"
proof -
  have same: "same_but_status (demo_os 0) (demo_os 1)"
    by (simp add: same_but_status_def demo_os_def)
  have run: "inject demo_str (demo_os 1) demo_job ([''''], []) =
       Inr ((), ([],
         [Print (MsgStart (PyStr ''com.a'')),
          Run (Argv [''sudo'', ''chmod'', ''-R'', ''777'', ''/Applications/A.app'']),
          Run (Argv [''sudo'', ''xattr'', ''-cr'', ''/Applications/A.app'']),
          Run (Argv [''sudo'', ''pkill'', ''-f'', ''alpha'']),
          Print MsgBackupExists,
          Run (Shell ''chmod +x /opt/inject/tool/insert_dylib''),
          Run (Shell (insert_command ''/opt/inject'' (quoted ''/opt/inject/tool/91QiuChenly.dylib'')
                 ''/Applications/A.app/Contents/MacOS/alpha_backup''
                 ''/Applications/A.app/Contents/MacOS/alpha'')),
          Print MsgSigning,
          Run (Shell (''/usr/bin/codesign -f -s - --timestamp=none --all-architectures '' @
                 quoted ''/Applications/A.app/Contents/MacOS/alpha'')),
          Run (Shell (''sudo xattr -cr '' @ quoted ''/Applications/A.app/Contents/MacOS/alpha'')),
          Run (Shell ''tccutil reset All com.a''),
          Print MsgFinished]))"
    by (simp add: inject_def prepare_def backup_stage_def insert_stage_def sign_stage_def
          helper_stage_def tcc_stage_def reset_permissions_def sign_prefix_def dest_of_def
          backup_of_def copy_command_def insert_command_def getAppMainExecutable_def
          manifest_key_def do_all_def seq_m_def bind_m_def unit_m_def ignore_def when_m_def
          run_cmd_def print_msg_def path_exists_m_def input_m_def remove_m_def
          demo_os_def demo_job_def fmt_def quoted_def read_input_def demo_str_def
          sample_strip_def sample_space_def sample_lower_def sample_upper_def
          sample_lower_case_def)
  from sequencer_ignores_exit_status [OF same, where t = demo_str and j = demo_job
      and s = "([''''], [])"] same run
  show ?thesis by simp
qed

section \<open>Properties of the backup\<close>

lemma for_run_log:
  "for_m (\<lambda>x. run_cmd os (f x)) xs (w, log) =
     Inr ((), (foldl (\<lambda>w c. snd (os_run os c w)) w (map f xs), log @ map (\<lambda>x. Run (f x)) xs))"
  by (induction xs arbitrary: w log) (simp_all add: run_cmd_def)

lemma map_m_manifest_state:
  "map_m (\<lambda>i. bind_m (getAppMainExecutable os (g i)) (\<lambda>exe. unit_m (h i exe))) apps s =
     Inr (ys, s') \<Longrightarrow> s' = s"
proof (induction apps arbitrary: ys)
  case Nil
  then show ?case by simp
next
  case (Cons i apps)
  then show ?case
    by (auto simp: bind_m_def unit_m_def getAppMainExecutable_def manifest_key_def
          split: sum.splits plist.splits option.splits prod.splits)
qed

lemma component_targets_state:
  "component_targets os j s = Inr (components, s') \<Longrightarrow> s' = s"
  by (cases "componentApp j")
     (auto simp: component_targets_def unit_m_def dest: map_m_manifest_state)

text \<open>
  The injector stage adds to the log the command that makes the injector executable, the
  copy of the library when one is asked for, and one injector command for the target and
  for each component; each injector command reads the backup.
\<close>

lemma insert_stage_log:
  assumes "insert_stage os j dest backup (w, log) = Inr (u, (w', log'))"
  shows "\<exists>components.
     log' = log @ [Run (Shell (''chmod +x '' @ current_parent j @ ''/tool/insert_dylib''))] @
       (if truthy (need_copy_to_app_dir j) then [Run (copy_library_command j)] else []) @
       map (\<lambda>target. Run (Shell (''sudo '' @ current_parent j @ ''/tool/insert_dylib '' @
                     library_of j @ '' '' @ [CHR 0x27] @ backup @ [CHR 0x27] @ '' '' @
                     [CHR 0x27] @ target @ [CHR 0x27])))
         (dest # components)"
proof (cases "truthy (need_copy_to_app_dir j)")
  case False
  with assms show ?thesis
    by (auto simp: insert_stage_def library_of_def seq_m_def bind_m_def unit_m_def ignore_def
          run_cmd_def insert_command_def quoted_def)
next
  case True
  let ?wa = "snd (os_run os (Shell (''chmod +x '' @ current_parent j @ ''/tool/insert_dylib'')) w)"
  let ?wb = "snd (os_run os (copy_library_command j) ?wa)"
  let ?logb = "log @ [Run (Shell (''chmod +x '' @ current_parent j @ ''/tool/insert_dylib'')),
      Run (copy_library_command j)]"
  from assms True obtain components s where
    targets: "component_targets os j (?wb, ?logb) = Inr (components, s)"
    and loop: "for_m (\<lambda>it. run_cmd os
          (Shell (insert_command (current_parent j) (destination_dylib j) backup it)))
        ([dest] @ components) s = Inr (u, (w', log'))"
    by (auto simp: insert_stage_def seq_m_def bind_m_def unit_m_def ignore_def run_cmd_def
          split: sum.splits prod.splits)
  from component_targets_state [OF targets] have s: "s = (?wb, ?logb)" .
  from loop have "log' = ?logb @ map (\<lambda>target. Run (Shell
      (insert_command (current_parent j) (destination_dylib j) backup target))) (dest # components)"
    unfolding s for_run_log by simp
  with True show ?thesis
    by (auto simp: library_of_def insert_command_def quoted_def)
qed

text \<open>
  A run of the sequencer that returns, for an app that is not registered by key
  generator, went through the preparation, the backup stage, the injector stage and the
  remaining stages, in this order, each from the world and log the one before left.
\<close>

lemma inject_stages:
  assumes "keygen j = PyNone" and "inject t os j s = Inr (u, s')"
  shows "\<exists>sa sb sc.
     prepare os j s = Inr ((), sa) \<and>
     backup_stage t os (dest_of j) (backup_of j) sa = Inr ((), sb) \<and>
     insert_stage os j (dest_of j) (backup_of j) sb = Inr ((), sc) \<and>
     do_all [sign_stage os j (dest_of j), helper_stage os j, tcc_stage os j,
             print_msg MsgFinished] sc = Inr (u, s')"
proof -
  let ?rest = "do_all [sign_stage os j (dest_of j), helper_stage os j, tcc_stage os j,
             print_msg MsgFinished]"
  have unfolded: "inject t os j =
      seq_m (prepare os j)
        (seq_m (backup_stage t os (dest_of j) (backup_of j))
           (seq_m (insert_stage os j (dest_of j) (backup_of j)) ?rest))"
    using assms(1) by (simp add: inject_def do_all_def)
  from assms(2) obtain sa where a: "prepare os j s = Inr ((), sa)"
    and after_a: "seq_m (backup_stage t os (dest_of j) (backup_of j))
           (seq_m (insert_stage os j (dest_of j) (backup_of j)) ?rest) sa = Inr (u, s')"
    unfolding unfolded by (auto simp: seq_m_def bind_m_def split: sum.splits)
  from after_a obtain sb where b: "backup_stage t os (dest_of j) (backup_of j) sa = Inr ((), sb)"
    and after_b: "seq_m (insert_stage os j (dest_of j) (backup_of j)) ?rest sb = Inr (u, s')"
    by (auto simp: seq_m_def bind_m_def split: sum.splits)
  from after_b obtain sc where c: "insert_stage os j (dest_of j) (backup_of j) sb = Inr ((), sc)"
    and after_c: "?rest sc = Inr (u, s')"
    by (auto simp: seq_m_def bind_m_def split: sum.splits)
  from a b c after_c show ?thesis by blast
qed

text \<open>
  C6. The sequencer settles the backup before the injector runs. The sequencer acts on
  the files through commands it starts, so what it does to the backup is what it
  starts, removes and reads, in order. When no backup exists, it starts
  \<open>sudo cp '<target>' '<backup>'\<close> and does nothing else. When one exists, it prints the
  question and reads the answer; the answer counts as \<open>n\<close> when that is what is left of
  it after \<open>read_input\<close> and one more \<open>strip\<close> and \<open>lower\<close>. Unless the answer is \<open>n\<close>, the
  stage ends there: no command is started and nothing is removed, the world is the one
  the reading left. On \<open>n\<close> the backup is removed and then
  \<open>sudo cp '<target>' '<backup>'\<close> is started. In a run that returns for an app that is
  not registered by key generator, the backup stage starts from what the preparation
  left, the injector stage from what the backup stage left, and every injector command
  is \<open>sudo <root>/tool/insert_dylib <library> '<backup>' '<file>'\<close>, the first one
  writing to the target: the injector reads the backup.
\<close>

theorem backup_created_or_reused:
  "(\<not> os_exists os backup w \<longrightarrow>
      backup_stage t os dest backup (w, log) =
        Inr ((), (snd (os_run os (Shell (''sudo cp '' @ [CHR 0x27] @ dest @ [CHR 0x27] @ '' '' @
                                   [CHR 0x27] @ backup @ [CHR 0x27])) w),
                  log @ [Run (Shell (''sudo cp '' @ [CHR 0x27] @ dest @ [CHR 0x27] @ '' '' @
                                [CHR 0x27] @ backup @ [CHR 0x27]))])))
   \<and> (os_exists os backup w \<and> os_input os w = Inr (line, w') \<and>
       str_lower t (str_strip t (read_input t line)) \<noteq> ''n'' \<longrightarrow>
      backup_stage t os dest backup (w, log) = Inr ((), (w', log @ [Print MsgBackupExists])))
   \<and> (os_exists os backup w \<and> os_input os w = Inr (line, w') \<and>
       str_lower t (str_strip t (read_input t line)) = ''n'' \<and>
       os_remove os backup w' = Inr w'' \<longrightarrow>
      backup_stage t os dest backup (w, log) =
        Inr ((), (snd (os_run os (Shell (''sudo cp '' @ [CHR 0x27] @ dest @ [CHR 0x27] @ '' '' @
                                   [CHR 0x27] @ backup @ [CHR 0x27])) w''),
                  log @ [Print MsgBackupExists, Remove backup,
                         Run (Shell (''sudo cp '' @ [CHR 0x27] @ dest @ [CHR 0x27] @ '' '' @
                                [CHR 0x27] @ backup @ [CHR 0x27]))])))
   \<and> (keygen j = PyNone \<and> inject t os j (wi, logi) = Inr (u, s') \<longrightarrow>
      (\<exists>wa loga wb logb wc components.
         prepare os j (wi, logi) = Inr ((), (wa, loga)) \<and>
         backup_stage t os (dest_of j) (backup_of j) (wa, loga) = Inr ((), (wb, logb)) \<and>
         insert_stage os j (dest_of j) (backup_of j) (wb, logb) =
           Inr ((), (wc,
             logb @ [Run (Shell (''chmod +x '' @ current_parent j @ ''/tool/insert_dylib''))] @
             (if truthy (need_copy_to_app_dir j) then [Run (copy_library_command j)] else []) @
             map (\<lambda>target. Run (Shell (''sudo '' @ current_parent j @ ''/tool/insert_dylib '' @
                           library_of j @ '' '' @ [CHR 0x27] @ backup_of j @ [CHR 0x27] @ '' '' @
                           [CHR 0x27] @ target @ [CHR 0x27])))
               (dest_of j # components))) \<and>
         (\<exists>sc. insert_stage os j (dest_of j) (backup_of j) (wb, logb) = Inr ((), sc) \<and>
            do_all [sign_stage os j (dest_of j), helper_stage os j, tcc_stage os j,
                    print_msg MsgFinished] sc = Inr (u, s'))))"
proof -
  have absent: "\<not> os_exists os backup w \<longrightarrow>
      backup_stage t os dest backup (w, log) =
        Inr ((), (snd (os_run os (Shell (''sudo cp '' @ [CHR 0x27] @ dest @ [CHR 0x27] @ '' '' @
                                   [CHR 0x27] @ backup @ [CHR 0x27])) w),
                  log @ [Run (Shell (''sudo cp '' @ [CHR 0x27] @ dest @ [CHR 0x27] @ '' '' @
                                [CHR 0x27] @ backup @ [CHR 0x27]))]))"
    by (simp add: backup_stage_def bind_m_def path_exists_m_def ignore_def unit_m_def run_cmd_def
          copy_command_def quoted_def)
  have reuse: "os_exists os backup w \<and> os_input os w = Inr (line, w') \<and>
       str_lower t (str_strip t (read_input t line)) \<noteq> ''n'' \<longrightarrow>
      backup_stage t os dest backup (w, log) = Inr ((), (w', log @ [Print MsgBackupExists]))"
    by (simp add: backup_stage_def bind_m_def seq_m_def path_exists_m_def input_m_def
          print_msg_def unit_m_def)
  have renew: "os_exists os backup w \<and> os_input os w = Inr (line, w') \<and>
       str_lower t (str_strip t (read_input t line)) = ''n'' \<and>
       os_remove os backup w' = Inr w'' \<longrightarrow>
      backup_stage t os dest backup (w, log) =
        Inr ((), (snd (os_run os (Shell (''sudo cp '' @ [CHR 0x27] @ dest @ [CHR 0x27] @ '' '' @
                                   [CHR 0x27] @ backup @ [CHR 0x27])) w''),
                  log @ [Print MsgBackupExists, Remove backup,
                         Run (Shell (''sudo cp '' @ [CHR 0x27] @ dest @ [CHR 0x27] @ '' '' @
                                [CHR 0x27] @ backup @ [CHR 0x27]))]))"
    by (simp add: backup_stage_def bind_m_def seq_m_def do_all_def path_exists_m_def input_m_def
          print_msg_def unit_m_def remove_m_def ignore_def run_cmd_def copy_command_def
          quoted_def)
  have order: "keygen j = PyNone \<and> inject t os j (wi, logi) = Inr (u, s') \<longrightarrow>
      (\<exists>wa loga wb logb wc components.
         prepare os j (wi, logi) = Inr ((), (wa, loga)) \<and>
         backup_stage t os (dest_of j) (backup_of j) (wa, loga) = Inr ((), (wb, logb)) \<and>
         insert_stage os j (dest_of j) (backup_of j) (wb, logb) =
           Inr ((), (wc,
             logb @ [Run (Shell (''chmod +x '' @ current_parent j @ ''/tool/insert_dylib''))] @
             (if truthy (need_copy_to_app_dir j) then [Run (copy_library_command j)] else []) @
             map (\<lambda>target. Run (Shell (''sudo '' @ current_parent j @ ''/tool/insert_dylib '' @
                           library_of j @ '' '' @ [CHR 0x27] @ backup_of j @ [CHR 0x27] @ '' '' @
                           [CHR 0x27] @ target @ [CHR 0x27])))
               (dest_of j # components))) \<and>
         (\<exists>sc. insert_stage os j (dest_of j) (backup_of j) (wb, logb) = Inr ((), sc) \<and>
            do_all [sign_stage os j (dest_of j), helper_stage os j, tcc_stage os j,
                    print_msg MsgFinished] sc = Inr (u, s')))"
  proof
    assume run: "keygen j = PyNone \<and> inject t os j (wi, logi) = Inr (u, s')"
    then obtain sa sb sc where a: "prepare os j (wi, logi) = Inr ((), sa)"
      and b: "backup_stage t os (dest_of j) (backup_of j) sa = Inr ((), sb)"
      and c: "insert_stage os j (dest_of j) (backup_of j) sb = Inr ((), sc)"
      and rest: "do_all [sign_stage os j (dest_of j), helper_stage os j, tcc_stage os j,
             print_msg MsgFinished] sc = Inr (u, s')"
      using inject_stages [of j t os "(wi, logi)" u s'] by blast
    obtain wa loga where sa: "sa = (wa, loga)" by (cases sa)
    obtain wb logb where sb: "sb = (wb, logb)" by (cases sb)
    obtain wc logc where sc: "sc = (wc, logc)" by (cases sc)
    from insert_stage_log [OF c [unfolded sb sc]] obtain components where
      logc: "logc = logb @
          [Run (Shell (''chmod +x '' @ current_parent j @ ''/tool/insert_dylib''))] @
          (if truthy (need_copy_to_app_dir j) then [Run (copy_library_command j)] else []) @
          map (\<lambda>target. Run (Shell (''sudo '' @ current_parent j @ ''/tool/insert_dylib '' @
                        library_of j @ '' '' @ [CHR 0x27] @ backup_of j @ [CHR 0x27] @ '' '' @
                        [CHR 0x27] @ target @ [CHR 0x27])))
            (dest_of j # components)"
      by blast
    have injected: "insert_stage os j (dest_of j) (backup_of j) (wb, logb) =
           Inr ((), (wc,
             logb @ [Run (Shell (''chmod +x '' @ current_parent j @ ''/tool/insert_dylib''))] @
             (if truthy (need_copy_to_app_dir j) then [Run (copy_library_command j)] else []) @
             map (\<lambda>target. Run (Shell (''sudo '' @ current_parent j @ ''/tool/insert_dylib '' @
                           library_of j @ '' '' @ [CHR 0x27] @ backup_of j @ [CHR 0x27] @ '' '' @
                           [CHR 0x27] @ target @ [CHR 0x27])))
               (dest_of j # components)))"
      using c unfolding sb sc logc .
    from a b c rest injected show "\<exists>wa loga wb logb wc components.
         prepare os j (wi, logi) = Inr ((), (wa, loga)) \<and>
         backup_stage t os (dest_of j) (backup_of j) (wa, loga) = Inr ((), (wb, logb)) \<and>
         insert_stage os j (dest_of j) (backup_of j) (wb, logb) =
           Inr ((), (wc,
             logb @ [Run (Shell (''chmod +x '' @ current_parent j @ ''/tool/insert_dylib''))] @
             (if truthy (need_copy_to_app_dir j) then [Run (copy_library_command j)] else []) @
             map (\<lambda>target. Run (Shell (''sudo '' @ current_parent j @ ''/tool/insert_dylib '' @
                           library_of j @ '' '' @ [CHR 0x27] @ backup_of j @ [CHR 0x27] @ '' '' @
                           [CHR 0x27] @ target @ [CHR 0x27])))
               (dest_of j # components))) \<and>
         (\<exists>sc. insert_stage os j (dest_of j) (backup_of j) (wb, logb) = Inr ((), sc) \<and>
            do_all [sign_stage os j (dest_of j), helper_stage os j, tcc_stage os j,
                    print_msg MsgFinished] sc = Inr (u, s'))"
      unfolding sa sb by blast
  qed
  from absent reuse renew order show ?thesis
    by (intro conjI)
qed

theorem backup_created_or_reused_witness:
  "backup_stage demo_str (demo_os 0) ''/Applications/A.app/Contents/MacOS/alpha''
      ''/Applications/A.app/Contents/MacOS/alpha_backup'' ([''Y'', ''later''], []) =
     Inr ((), ([''later''], [Print MsgBackupExists]))
   \<and> backup_stage demo_str (demo_os 0) ''/Applications/A.app/Contents/MacOS/alpha''
      ''/Applications/A.app/Contents/MacOS/alpha_backup''
      ([[CHR 0xA0] @ ''N'' @ [CHR 0xA0], ''later''], []) =
     Inr ((), ([''later''],
       [Print MsgBackupExists, Remove ''/Applications/A.app/Contents/MacOS/alpha_backup'',
        Run (Shell (''sudo cp '' @ [CHR 0x27] @ ''/Applications/A.app/Contents/MacOS/alpha'' @
               [CHR 0x27] @ '' '' @ [CHR 0x27] @
               ''/Applications/A.app/Contents/MacOS/alpha_backup'' @ [CHR 0x27]))]))
   \<and> backup_stage demo_str (demo_os 0) ''/Applications/B.app/Contents/MacOS/beta''
      ''/Applications/B.app/Contents/MacOS/beta_backup'' ([''later''], []) =
     Inr ((), ([''later''],
       [Run (Shell (''sudo cp '' @ [CHR 0x27] @ ''/Applications/B.app/Contents/MacOS/beta'' @
               [CHR 0x27] @ '' '' @ [CHR 0x27] @
               ''/Applications/B.app/Contents/MacOS/beta_backup'' @ [CHR 0x27]))]))
   \<and> inject demo_str (demo_os 0) demo_job ([''n''], []) =
     Inr ((), ([],
       [Print (MsgStart (PyStr ''com.a'')),
        Run (Argv [''sudo'', ''chmod'', ''-R'', ''777'', ''/Applications/A.app'']),
        Run (Argv [''sudo'', ''xattr'', ''-cr'', ''/Applications/A.app'']),
        Run (Argv [''sudo'', ''pkill'', ''-f'', ''alpha'']),
        Print MsgBackupExists,
        Remove ''/Applications/A.app/Contents/MacOS/alpha_backup'',
        Run (Shell (''sudo cp '' @ [CHR 0x27] @ ''/Applications/A.app/Contents/MacOS/alpha'' @
               [CHR 0x27] @ '' '' @ [CHR 0x27] @
               ''/Applications/A.app/Contents/MacOS/alpha_backup'' @ [CHR 0x27])),
        Run (Shell ''chmod +x /opt/inject/tool/insert_dylib''),
        Run (Shell (''sudo /opt/inject/tool/insert_dylib '' @ [CHR 0x27] @
               ''/opt/inject/tool/91QiuChenly.dylib'' @ [CHR 0x27] @ '' '' @ [CHR 0x27] @
               ''/Applications/A.app/Contents/MacOS/alpha_backup'' @ [CHR 0x27] @ '' '' @
               [CHR 0x27] @ ''/Applications/A.app/Contents/MacOS/alpha'' @ [CHR 0x27])),
        Print MsgSigning,
        Run (Shell (''/usr/bin/codesign -f -s - --timestamp=none --all-architectures '' @
               [CHR 0x27] @ ''/Applications/A.app/Contents/MacOS/alpha'' @ [CHR 0x27])),
        Run (Shell (''sudo xattr -cr '' @ [CHR 0x27] @
               ''/Applications/A.app/Contents/MacOS/alpha'' @ [CHR 0x27])),
        Run (Shell ''tccutil reset All com.a''),
        Print MsgFinished]))"
proof -
  let ?final = "([],
       [Print (MsgStart (PyStr ''com.a'')),
        Run (Argv [''sudo'', ''chmod'', ''-R'', ''777'', ''/Applications/A.app'']),
        Run (Argv [''sudo'', ''xattr'', ''-cr'', ''/Applications/A.app'']),
        Run (Argv [''sudo'', ''pkill'', ''-f'', ''alpha'']),
        Print MsgBackupExists,
        Remove ''/Applications/A.app/Contents/MacOS/alpha_backup'',
        Run (Shell (''sudo cp '' @ [CHR 0x27] @ ''/Applications/A.app/Contents/MacOS/alpha'' @
               [CHR 0x27] @ '' '' @ [CHR 0x27] @
               ''/Applications/A.app/Contents/MacOS/alpha_backup'' @ [CHR 0x27])),
        Run (Shell ''chmod +x /opt/inject/tool/insert_dylib''),
        Run (Shell (''sudo /opt/inject/tool/insert_dylib '' @ [CHR 0x27] @
               ''/opt/inject/tool/91QiuChenly.dylib'' @ [CHR 0x27] @ '' '' @ [CHR 0x27] @
               ''/Applications/A.app/Contents/MacOS/alpha_backup'' @ [CHR 0x27] @ '' '' @
               [CHR 0x27] @ ''/Applications/A.app/Contents/MacOS/alpha'' @ [CHR 0x27])),
        Print MsgSigning,
        Run (Shell (''/usr/bin/codesign -f -s - --timestamp=none --all-architectures '' @
               [CHR 0x27] @ ''/Applications/A.app/Contents/MacOS/alpha'' @ [CHR 0x27])),
        Run (Shell (''sudo xattr -cr '' @ [CHR 0x27] @
               ''/Applications/A.app/Contents/MacOS/alpha'' @ [CHR 0x27])),
        Run (Shell ''tccutil reset All com.a''),
        Print MsgFinished])"
  note settle = backup_created_or_reused [where t = demo_str and os = "demo_os 0"
      and log = "[]" and j = demo_job and wi = "[''n'']" and logi = "[]" and u = "()"]
  note strs = read_input_def demo_str_def sample_strip_def sample_space_def sample_lower_def
    sample_upper_def sample_lower_case_def
  have yes: "str_lower demo_str (str_strip demo_str (read_input demo_str ''Y'')) \<noteq> ''n''"
    by (simp add: strs)
  have no: "str_lower demo_str (str_strip demo_str
      (read_input demo_str ([CHR 0xA0] @ ''N'' @ [CHR 0xA0]))) = ''n''"
    by (simp add: strs)
  have plain: "keygen demo_job = PyNone"
    by (simp add: demo_job_def)
  have run: "inject demo_str (demo_os 0) demo_job ([''n''], []) = Inr ((), ?final)"
    by (simp add: inject_def prepare_def backup_stage_def insert_stage_def sign_stage_def
          helper_stage_def tcc_stage_def reset_permissions_def sign_prefix_def dest_of_def
          backup_of_def copy_command_def insert_command_def getAppMainExecutable_def
          manifest_key_def do_all_def seq_m_def bind_m_def unit_m_def ignore_def when_m_def
          run_cmd_def print_msg_def path_exists_m_def input_m_def remove_m_def
          demo_os_def demo_job_def fmt_def quoted_def strs)
  from settle [where backup = "''/Applications/A.app/Contents/MacOS/alpha_backup''"
        and dest = "''/Applications/A.app/Contents/MacOS/alpha''"
        and w = "[''Y'', ''later'']" and line = "''Y''" and w' = "[''later'']" and w'' = "[]"
        and s' = ?final]
     settle [where backup = "''/Applications/A.app/Contents/MacOS/alpha_backup''"
        and dest = "''/Applications/A.app/Contents/MacOS/alpha''"
        and w = "[[CHR 0xA0] @ ''N'' @ [CHR 0xA0], ''later'']"
        and line = "[CHR 0xA0] @ ''N'' @ [CHR 0xA0]" and w' = "[''later'']"
        and w'' = "[''later'']" and s' = ?final]
     settle [where backup = "''/Applications/B.app/Contents/MacOS/beta_backup''"
        and dest = "''/Applications/B.app/Contents/MacOS/beta''"
        and w = "[''later'']" and line = "[]" and w' = "[]" and w'' = "[]" and s' = ?final]
     yes no plain run
  show ?thesis
    by (simp add: demo_os_def)
qed

end
